theory Spec2Isabelle
  imports Complex_Main "HOL-Library.Word" "HOL-Library.Multiset"
begin

section \<open>Chunk planning in \<open>SFTPConnectionManager.download_file\<close>\<close>

text \<open>
  \<open>download_file\<close> of \<open>src/download-manager.py\<close> has no planner of its own: it
  computes the byte ranges inline.
  \<^verbatim>\<open>
      if file_size < 10 * 1024 * 1024:  # 10MB
          self.sftp_client.get(remote_path, local_path, callback=progress_callback)
          return True
      chunk_size = file_size // chunks
      ...
      for i in range(chunks):
          start = i * chunk_size
          end = file_size if i == chunks - 1 else (i + 1) * chunk_size
  \<close>
  Python integers are unbounded, so sizes and the chunk count are \<open>int\<close>. Python's
  \<open>//\<close> on integers is floor division, which is \<open>div\<close> on \<open>int\<close>; the division by
  zero, which Python raises, is a branch of \<open>download_file\<close> below and never reaches
  \<open>chunk_size\<close>.
\<close>

definition small_file_threshold :: int where
  "small_file_threshold = 10 * 1024 * 1024"

definition chunk_size :: "int \<Rightarrow> int \<Rightarrow> int" where
  "chunk_size file_size chunks = file_size div chunks"

definition chunk_start :: "int \<Rightarrow> int \<Rightarrow> nat \<Rightarrow> int" where
  "chunk_start file_size chunks i = int i * chunk_size file_size chunks"

definition chunk_end :: "int \<Rightarrow> int \<Rightarrow> nat \<Rightarrow> int" where
  "chunk_end file_size chunks i =
     (if int i = chunks - 1 then file_size else (int i + 1) * chunk_size file_size chunks)"

text \<open>
  The arguments \<open>(i, start, end)\<close> of the threads the loop starts, in the order of
  \<open>range(chunks)\<close> (empty when \<open>chunks \<le> 0\<close>).
\<close>

definition chunk_ranges :: "int \<Rightarrow> int \<Rightarrow> (nat \<times> int \<times> int) list" where
  "chunk_ranges file_size chunks =
     map (\<lambda>i. (i, chunk_start file_size chunks i, chunk_end file_size chunks i))
       [0..<nat chunks]"

text \<open>
  The transfers \<open>download_file\<close> makes for a file of a given size: below the threshold
  one \<open>sftp.get\<close> of the whole file, written as the single range \<open>[0, file_size)\<close>;
  otherwise the ranges of the loop.
\<close>

definition plan :: "int \<Rightarrow> int \<Rightarrow> (nat \<times> int \<times> int) list" where
  "plan file_size chunks =
     (if file_size < small_file_threshold then [(0, 0, file_size)]
      else chunk_ranges file_size chunks)"

definition range_start :: "nat \<times> int \<times> int \<Rightarrow> int" where
  "range_start r = fst (snd r)"

definition range_end :: "nat \<times> int \<times> int \<Rightarrow> int" where
  "range_end r = snd (snd r)"

definition range_len :: "nat \<times> int \<times> int \<Rightarrow> int" where
  "range_len r = range_end r - range_start r"

section \<open>The chunk worker \<open>download_chunk\<close>\<close>

text \<open>
  Bytes are 8-bit words; a local file system maps a path to the contents of the file
  there (\<open>None\<close>: no such file).
\<close>

type_synonym byte = "8 word"

type_synonym filesystem = "string \<rightharpoonup> byte list"

text \<open>
  Python's \<open>str(i)\<close> for an index \<open>i\<close> of \<open>range(chunks)\<close>, which is never
  negative: the decimal digits, most significant first.
\<close>

definition digit_char :: "nat \<Rightarrow> char" where
  "digit_char d = ''0123456789'' ! d"

fun str_nat :: "nat \<Rightarrow> string" where
  "str_nat n = (if n < 10 then [digit_char n]
                else str_nat (n div 10) @ [digit_char (n mod 10)])"

declare str_nat.simps [simp del]

text \<open>\<^verbatim>\<open>temp_file = f"{local_path}.part{chunk_idx}"\<close>\<close>

definition temp_name :: "string \<Rightarrow> nat \<Rightarrow> string" where
  "temp_name local_path chunk_idx = local_path @ ''.part'' @ str_nat chunk_idx"

text \<open>\<^verbatim>\<open>f"Chunk {chunk_idx}: {e}"\<close>, with \<open>e\<close> given by its text.\<close>

definition chunk_error :: "nat \<Rightarrow> string \<Rightarrow> string" where
  "chunk_error chunk_idx e = ''Chunk '' @ str_nat chunk_idx @ '': '' @ e"

text \<open>
  What the outside world does to one worker. Every call of the worker that can raise
  has a field that says whether it does, holding the text of the exception:
  \<^item> \<open>key_ok\<close>: one of the three key classes loads the private key;
  \<^item> \<open>connect_raises\<close>: \<open>ssh.connect(...)\<close> raises;
  \<^item> \<open>open_sftp_raises\<close>: \<open>ssh.open_sftp()\<close>, or the tuning of its channel, raises;
  \<^item> \<open>remote_open_raises\<close>: \<open>sftp.file(remote_path, "r")\<close> or the \<open>seek\<close> raises;
  \<^item> \<open>local_open_raises\<close>: \<open>open(temp_file, "wb")\<close> raises;
  \<^item> \<open>io_raises k\<close>: the read of the remote file or the write to the temporary
    raises in iteration \<open>k\<close> of the loop (counted from 0);
  \<^item> \<open>remote_data\<close>: the bytes of the remote file as this session serves them. It may
    be shorter than the size that \<open>stat\<close> reported (the file shrank, or the server
    signals end of file early).
\<close>

record session_env =
  key_ok :: bool
  connect_raises :: "string option"
  open_sftp_raises :: "string option"
  remote_open_raises :: "string option"
  local_open_raises :: "string option"
  io_raises :: "nat \<Rightarrow> string option"
  remote_data :: "byte list"

text \<open>
  \<open>remote_file.read(n)\<close> at file position \<open>pos\<close>: the next \<open>n\<close> bytes, fewer at the
  end of the file, none beyond it.
\<close>

definition remote_read :: "byte list \<Rightarrow> int \<Rightarrow> int \<Rightarrow> byte list" where
  "remote_read data pos n = take (nat n) (drop (nat pos) data)"

text \<open>
  The state the threads share: the closure variables \<open>errors\<close>, \<open>temp_files\<close> and
  \<open>downloaded_bytes[0]\<close> of \<open>download_file\<close>, the local file system, and the chunk
  indices of the SSH connections that are established and not closed.
\<close>

record shared =
  errors :: "string list"
  temp_files :: "string list"
  downloaded_bytes :: int
  local_files :: filesystem
  connections :: "nat list"

text \<open>
  The variables of the read loop: \<open>bytes_read\<close>, the bytes written to \<open>local_file\<close>
  so far, and the shared counter.
  \<^verbatim>\<open>
      while bytes_read < bytes_to_read:
          chunk_data = remote_file.read(min(65536, bytes_to_read - bytes_read))
          if not chunk_data:
              break
          local_file.write(chunk_data)
          bytes_read += len(chunk_data)
          with lock:
              downloaded_bytes[0] += len(chunk_data)
  \<close>
  The file position is \<open>start + bytes_read\<close>: \<open>seek(start)\<close> set it and every read
  moves it by the bytes it returned. The result is the text of the exception that ended
  the loop, if one did, and the variables at that moment. The progress callback, which
  only displays the counter, is left out.
\<close>

record loop_state =
  bytes_read :: int
  local_file :: "byte list"
  downloaded :: int

function read_loop ::
  "session_env \<Rightarrow> int \<Rightarrow> int \<Rightarrow> nat \<Rightarrow> loop_state \<Rightarrow> string option \<times> loop_state" where
  "read_loop env start bytes_to_read k s =
     (if bytes_read s < bytes_to_read then
        (case io_raises env k of
           Some e \<Rightarrow> (Some e, s)
         | None \<Rightarrow>
            (let chunk_data = remote_read (remote_data env) (start + bytes_read s)
                                (min 65536 (bytes_to_read - bytes_read s))
             in if chunk_data = [] then (None, s)
                else read_loop env start bytes_to_read (Suc k)
                       (s\<lparr>bytes_read := bytes_read s + int (length chunk_data),
                          local_file := local_file s @ chunk_data,
                          downloaded := downloaded s + int (length chunk_data)\<rparr>)))
      else (None, s))"
  by pat_completeness auto
termination
proof (relation "measure (\<lambda>(env, start, bytes_to_read, k, s). nat (bytes_to_read - bytes_read s))")
  show "wf (measure (\<lambda>(env, start, bytes_to_read, k, s). nat (bytes_to_read - bytes_read s)))"
    by simp
next
  fix env :: session_env and start bytes_to_read :: int and k :: nat and s :: loop_state
    and chunk_data :: "byte list"
  assume "bytes_read s < bytes_to_read" and "chunk_data \<noteq> []"
  then have "0 < length chunk_data"
    by simp
  with \<open>bytes_read s < bytes_to_read\<close>
  show "((env, start, bytes_to_read, Suc k,
          s\<lparr>bytes_read := bytes_read s + int (length chunk_data),
            local_file := local_file s @ chunk_data,
            downloaded := downloaded s + int (length chunk_data)\<rparr>),
         (env, start, bytes_to_read, k, s))
        \<in> measure (\<lambda>(env, start, bytes_to_read, k, s). nat (bytes_to_read - bytes_read s))"
    by simp
qed

declare read_loop.simps [simp del]

text \<open>
  The worker, from the connection to the close. \<open>record_error\<close> is the handler
  \<^verbatim>\<open>except Exception as e: errors.append(f"Chunk {chunk_idx}: {e}")\<close>
  and the early return after a failed key load; neither closes anything. Only the last
  two statements of the \<open>try\<close> block, \<open>sftp.close()\<close> and \<open>ssh.close()\<close>, close the
  connection, so they run when nothing was raised before them. The two \<open>with\<close> blocks
  close the remote and the local file on every exit, so the temporary holds what the loop
  wrote also when the loop raised.
\<close>

definition record_error :: "nat \<Rightarrow> string \<Rightarrow> shared \<Rightarrow> shared" where
  "record_error chunk_idx e st = st\<lparr>errors := errors st @ [chunk_error chunk_idx e]\<rparr>"

definition transfer_chunk ::
  "session_env \<Rightarrow> string \<Rightarrow> nat \<Rightarrow> int \<Rightarrow> int \<Rightarrow> shared \<Rightarrow> shared" where
  "transfer_chunk env temp_file chunk_idx start end st =
     (case remote_open_raises env of
        Some e \<Rightarrow> record_error chunk_idx e st
      | None \<Rightarrow>
         (case local_open_raises env of
            Some e \<Rightarrow> record_error chunk_idx e st
          | None \<Rightarrow>
             (let (raised, s) = read_loop env start (end - start) 0
                      \<lparr>bytes_read = 0, local_file = [], downloaded = downloaded_bytes st\<rparr>;
                  st' = st\<lparr>local_files := (local_files st)(temp_file \<mapsto> local_file s),
                          downloaded_bytes := downloaded s\<rparr>
              in case raised of
                   Some e \<Rightarrow> record_error chunk_idx e st'
                 | None \<Rightarrow> st'\<lparr>connections := removeAll chunk_idx (connections st')\<rparr>)))"

definition download_chunk ::
  "(nat \<Rightarrow> session_env) \<Rightarrow> string \<Rightarrow> shared \<Rightarrow> nat \<times> int \<times> int \<Rightarrow> shared" where
  "download_chunk envs local_path st r =
     (case r of (chunk_idx, start, end) \<Rightarrow>
       (let env = envs chunk_idx in
        if \<not> key_ok env then record_error chunk_idx ''Key load failed'' st
        else
          (case connect_raises env of
             Some e \<Rightarrow> record_error chunk_idx e st
           | None \<Rightarrow>
              (let st1 = st\<lparr>connections := connections st @ [chunk_idx]\<rparr> in
               case open_sftp_raises env of
                 Some e \<Rightarrow> record_error chunk_idx e st1
               | None \<Rightarrow>
                  (let temp_file = temp_name local_path chunk_idx;
                       st2 = st1\<lparr>temp_files := temp_files st1 @ [temp_file]\<rparr>
                   in transfer_chunk env temp_file chunk_idx start end st2)))))"

section \<open>The coordinator \<open>download_file\<close>\<close>

text \<open>
  The threads share only the three closure variables, each changed by an append or by
  an addition under the lock, and every thread writes a temporary of its own name. The
  state after all threads are joined is therefore that of running the workers one after
  the other, up to the order of the entries of \<open>errors\<close> and \<open>temp_files\<close>, which
  follows the scheduling; the model runs them in the order of their indices (lemma
  \<open>workers_order_irrelevant\<close> below: any other order gives the same errors, counter
  and files).
\<close>

definition workers_joined ::
  "(nat \<Rightarrow> session_env) \<Rightarrow> string \<Rightarrow> int \<Rightarrow> int \<Rightarrow> filesystem \<Rightarrow> shared" where
  "workers_joined envs local_path file_size chunks fs =
     foldl (download_chunk envs local_path)
       \<lparr>errors = [], temp_files = [], downloaded_bytes = 0, local_files = fs, connections = []\<rparr>
       (chunk_ranges file_size chunks)"

text \<open>
  Reassembly: \<open>output\<close> holds what has been written to the destination so far.
  \<^verbatim>\<open>
      for i in range(chunks):
          temp_file = f"{local_path}.part{i}"
          with open(temp_file, "rb") as chunk:
              output.write(chunk.read())
          os.remove(temp_file)
  \<close>
  Opening a temporary that does not exist raises; the text is that of Python's
  \<open>FileNotFoundError\<close>.
\<close>

definition no_such_file :: "string \<Rightarrow> string" where
  "no_such_file p = ''[Errno 2] No such file or directory: '' @ [CHR 0x27] @ p @ [CHR 0x27]"

fun reassemble ::
  "string \<Rightarrow> nat list \<Rightarrow> byte list \<Rightarrow> filesystem \<Rightarrow> string option \<times> byte list \<times> filesystem" where
  "reassemble local_path [] output fs = (None, output, fs)"
| "reassemble local_path (i # rest) output fs =
     (case fs (temp_name local_path i) of
        None \<Rightarrow> (Some (no_such_file (temp_name local_path i)), output, fs)
      | Some data \<Rightarrow>
          reassemble local_path rest (output @ data) (fs(temp_name local_path i := None)))"

text \<open>
  What \<open>download_file\<close> is given and what it leaves behind. \<open>connected\<close> says that
  \<open>self.sftp_client\<close> is set; \<open>stat_result\<close> is the size \<open>stat\<close> reports, or the text
  of the exception it raises; \<open>get_result\<close> is what \<open>sftp_client.get\<close> does on the
  small-file path: it writes the bytes to the destination, or raises after writing a
  part of them; \<open>sessions i\<close> is the world of worker \<open>i\<close>.
\<close>

record transfer_env =
  connected :: bool
  stat_result :: "string + int"
  get_result :: "(string \<times> byte list) + byte list"
  sessions :: "nat \<Rightarrow> session_env"

record world =
  files :: filesystem
  console :: "string list"
  open_connections :: "nat list"

text \<open>The UTF-8 bytes of the cross mark that starts the failure message.\<close>

definition cross_mark :: string where
  "cross_mark = [CHR 0xE2, CHR 0x9D, CHR 0x8C]"

definition red :: "string \<Rightarrow> string" where
  "red msg = ''[red]'' @ msg @ ''[/red]''"

definition download_failed :: "string \<Rightarrow> string" where
  "download_failed e = ''[red]'' @ cross_mark @ '' Download failed: '' @ e @ ''[/red]''"

definition zero_division :: string where
  "zero_division = ''integer division or modulo by zero''"

text \<open>
  \<open>download_file(remote_path, local_path, progress_callback, chunks)\<close>. The result
  is the returned truth value and the world afterwards. An exception of the body reaches
  \<^verbatim>\<open>except Exception as e\<close>, which prints the failure and returns \<open>False\<close>: so do a
  raising \<open>stat\<close>, a raising \<open>get\<close>, the division by \<open>chunks = 0\<close> and a raising
  reassembly. The destination is opened with \<open>"wb"\<close>, which empties it, and closed by
  its \<open>with\<close> block on every exit, which leaves it with what was written.
\<close>

definition download_file :: "transfer_env \<Rightarrow> string \<Rightarrow> int \<Rightarrow> world \<Rightarrow> bool \<times> world" where
  "download_file env local_path chunks w =
     (if \<not> connected env then (False, w)
      else
        (case stat_result env of
           Inl e \<Rightarrow> (False, w\<lparr>console := console w @ [download_failed e]\<rparr>)
         | Inr file_size \<Rightarrow>
            if file_size < 10 * 1024 * 1024 then
              (case get_result env of
                 Inl (e, partial) \<Rightarrow>
                   (False, w\<lparr>files := (files w)(local_path \<mapsto> partial),
                             console := console w @ [download_failed e]\<rparr>)
               | Inr data \<Rightarrow> (True, w\<lparr>files := (files w)(local_path \<mapsto> data)\<rparr>))
            else if chunks = 0 then
              (False, w\<lparr>console := console w @ [download_failed zero_division]\<rparr>)
            else
              (let st = workers_joined (sessions env) local_path file_size chunks (files w);
                   w1 = w\<lparr>files := local_files st,
                          open_connections := open_connections w @ connections st\<rparr>
               in if errors st \<noteq> [] then
                    (False, w1\<lparr>console := console w1 @ map red (errors st)\<rparr>)
                  else
                    (let (raised, output, fs) =
                           reassemble local_path [0..<nat chunks] []
                             ((files w1)(local_path \<mapsto> []));
                         w2 = w1\<lparr>files := fs(local_path \<mapsto> output)\<rparr>
                     in case raised of
                          Some e \<Rightarrow> (False, w2\<lparr>console := console w2 @ [download_failed e]\<rparr>)
                        | None \<Rightarrow> (True, w2)))))"

section \<open>Derived notions for the transfer\<close>

text \<open>
  The value of a string of decimal digits; it reads \<open>str_nat\<close> back, which shows that
  different chunk indices give different temporary names.
\<close>

definition digit_val :: "char \<Rightarrow> nat" where
  "digit_val c = of_char c - 48"

definition decimal_value :: "string \<Rightarrow> nat" where
  "decimal_value cs = foldl (\<lambda>a c. 10 * a + digit_val c) 0 cs"

text \<open>
  What one worker does, seen from outside. \<open>loop_from_start\<close> is its read loop run
  with a counter of its own; \<open>chunk_bytes\<close> is what the loop leaves in the temporary;
  \<open>reaches_loop\<close> says that the worker gets as far as the loop (the temporary is
  opened); \<open>chunk_failure\<close> is the text the worker appends to \<open>errors\<close>, after
  the prefix with its index, or \<open>None\<close> when it appends nothing. The lemmas
  \<open>download_chunk_errors\<close>, \<open>download_chunk_files\<close>, \<open>download_chunk_counter\<close>
  and \<open>download_chunk_connections\<close> below prove that \<open>download_chunk\<close> changes
  the shared state in exactly this way.
\<close>

definition loop_from_start :: "session_env \<Rightarrow> int \<Rightarrow> int \<Rightarrow> string option \<times> loop_state" where
  "loop_from_start env start end =
     read_loop env start (end - start) 0 \<lparr>bytes_read = 0, local_file = [], downloaded = 0\<rparr>"

definition chunk_bytes :: "session_env \<Rightarrow> int \<Rightarrow> int \<Rightarrow> byte list" where
  "chunk_bytes env start end = local_file (snd (loop_from_start env start end))"

definition reaches_loop :: "session_env \<Rightarrow> bool" where
  "reaches_loop env \<longleftrightarrow>
     key_ok env \<and> connect_raises env = None \<and> open_sftp_raises env = None
     \<and> remote_open_raises env = None \<and> local_open_raises env = None"

definition chunk_failure :: "session_env \<Rightarrow> int \<Rightarrow> int \<Rightarrow> string option" where
  "chunk_failure env start end =
     (if \<not> key_ok env then Some ''Key load failed''
      else case connect_raises env of Some e \<Rightarrow> Some e | None \<Rightarrow>
        (case open_sftp_raises env of Some e \<Rightarrow> Some e | None \<Rightarrow>
          (case remote_open_raises env of Some e \<Rightarrow> Some e | None \<Rightarrow>
            (case local_open_raises env of Some e \<Rightarrow> Some e | None \<Rightarrow>
               fst (loop_from_start env start end)))))"

definition error_entry :: "nat \<Rightarrow> string option \<Rightarrow> string list" where
  "error_entry chunk_idx failure =
     (case failure of None \<Rightarrow> [] | Some e \<Rightarrow> [chunk_error chunk_idx e])"

text \<open>The same for worker \<open>i\<close> of a transfer, whose range is the \<open>i\<close>-th of the plan.\<close>

definition worker_failure :: "(nat \<Rightarrow> session_env) \<Rightarrow> int \<Rightarrow> int \<Rightarrow> nat \<Rightarrow> string option" where
  "worker_failure envs file_size chunks i =
     chunk_failure (envs i) (chunk_start file_size chunks i) (chunk_end file_size chunks i)"

definition worker_bytes :: "(nat \<Rightarrow> session_env) \<Rightarrow> int \<Rightarrow> int \<Rightarrow> nat \<Rightarrow> byte list" where
  "worker_bytes envs file_size chunks i =
     chunk_bytes (envs i) (chunk_start file_size chunks i) (chunk_end file_size chunks i)"

text \<open>
  Inputs for examples: a session in which nothing raises, serving the given bytes; a file
  of zero bytes of a given length; a world with no local files and an empty console.
\<close>

definition clean_session :: "byte list \<Rightarrow> session_env" where
  "clean_session data =
     \<lparr>key_ok = True, connect_raises = None, open_sftp_raises = None,
      remote_open_raises = None, local_open_raises = None,
      io_raises = (\<lambda>k. None), remote_data = data\<rparr>"

definition zero_bytes :: "nat \<Rightarrow> byte list" where
  "zero_bytes n = replicate n 0"

definition empty_world :: world where
  "empty_world = \<lparr>files = Map.empty, console = [], open_connections = []\<rparr>"

definition empty_shared :: shared where
  "empty_shared = \<lparr>errors = [], temp_files = [], downloaded_bytes = 0,
                    local_files = Map.empty, connections = []\<rparr>"

text \<open>
  The bytes of the remote file, as session \<open>i\<close> serves it, that lie in the \<open>i\<close>-th
  range of the plan.
\<close>

definition planned_bytes :: "(nat \<Rightarrow> session_env) \<Rightarrow> int \<Rightarrow> int \<Rightarrow> nat \<Rightarrow> byte list" where
  "planned_bytes envs file_size chunks i =
     take (nat (chunk_end file_size chunks i - chunk_start file_size chunks i))
       (drop (nat (chunk_start file_size chunks i)) (remote_data (envs i)))"

text \<open>
  Four sessions for an example: the connection of worker 1 fails, the others serve a file
  of 10 MiB.
\<close>

definition one_failing :: "nat \<Rightarrow> session_env" where
  "one_failing i =
     (if i = 1 then (clean_session [])\<lparr>connect_raises := Some ''ConnectionFailed''\<rparr>
      else clean_session (zero_bytes 10485760))"

section \<open>The directory listing \<open>list_directory\<close>\<close>

text \<open>
  An entry of \<open>sftp_client.listdir_attr(path)\<close>, with the attributes a server sends in
  a listing, and the dictionary \<open>list_directory\<close> makes of it. The mode is the 32-bit
  permissions field of the protocol; sizes and times are Python integers.
\<close>

record sftp_attr =
  filename :: string
  st_size :: int
  st_mtime :: int
  st_mode :: "32 word"

record file_info =
  name :: string
  size :: int
  mtime :: int
  is_dir :: bool
  mode :: "32 word"

text \<open>\<open>stat.S_ISDIR(mode)\<close>: the file type bits \<open>0o170000\<close> are \<open>0o040000\<close>.\<close>

definition S_ISDIR :: "32 word \<Rightarrow> bool" where
  "S_ISDIR m = (and m 0xF000 = 0x4000)"

definition to_file_info :: "sftp_attr \<Rightarrow> file_info" where
  "to_file_info attr =
     \<lparr>name = filename attr, size = st_size attr, mtime = st_mtime attr,
      is_dir = S_ISDIR (st_mode attr), mode = st_mode attr\<rparr>"

definition list_failed :: "string \<Rightarrow> string" where
  "list_failed e = ''[red]'' @ cross_mark @ '' Failed to list directory: '' @ e @ ''[/red]''"

text \<open>
  \<open>list_directory(path)\<close>: \<open>has_client\<close> says that \<open>self.sftp_client\<close> is set,
  \<open>listing\<close> is what \<open>listdir_attr\<close> returns or the text of the exception it raises.
  The result is the returned list and the console afterwards. Python's \<open>list.sort\<close>
  is stable and ascending in the key \<open>-x['mtime']\<close>, as \<open>sort_key\<close> is.
\<close>

definition list_directory ::
  "bool \<Rightarrow> string + sftp_attr list \<Rightarrow> string list \<Rightarrow> file_info list \<times> string list" where
  "list_directory has_client listing out =
     (if \<not> has_client then ([], out)
      else
        (case listing of
           Inl e \<Rightarrow> ([], out @ [list_failed e])
         | Inr attrs \<Rightarrow> (sort_key (\<lambda>x. - mtime x) (map to_file_info attrs), out)))"

section \<open>The listing cache \<open>CacheManager\<close>\<close>

text \<open>
  A cache file holds a pickled dictionary with the keys \<open>timestamp\<close>, \<open>files\<close> and,
  since folder sizes were added, \<open>folder_sizes\<close>; a file that cannot be read back is
  \<open>Unreadable\<close>. Times are the values of \<open>time.time()\<close>, seconds as real numbers.
  The cache directory maps the name of a cache file to its contents.
\<close>

record cache_data =
  timestamp :: real
  cached_files :: "file_info list"
  folder_sizes :: "(string \<rightharpoonup> int) option"

datatype cache_file = Unreadable | Pickled cache_data

record cache_manager =
  cache_dir :: "string \<rightharpoonup> cache_file"
  max_age :: int

text \<open>
  \<open>_get_cache_key\<close> is the MD5 digest of the path in hexadecimal; the digest function
  is a parameter of the model.
\<close>

definition cache_file_name :: "(string \<Rightarrow> string) \<Rightarrow> string \<Rightarrow> string" where
  "cache_file_name md5_hexdigest path = md5_hexdigest path @ ''.cache''"

text \<open>Python's \<open>int(x)\<close> of a float rounds towards zero.\<close>

definition py_int :: "real \<Rightarrow> int" where
  "py_int x = (if 0 \<le> x then \<lfloor>x\<rfloor> else \<lceil>x\<rceil>)"

text \<open>
  \<open>CacheManager.get(path)\<close>, called when \<open>time.time()\<close> is \<open>now\<close>. A missing file,
  an unreadable one and an entry older than \<open>max_age\<close> all give \<open>None\<close>.
\<close>

definition CacheManager_get ::
  "(string \<Rightarrow> string) \<Rightarrow> cache_manager \<Rightarrow> string \<Rightarrow> real
     \<Rightarrow> (file_info list \<times> int \<times> (string \<rightharpoonup> int)) option" where
  "CacheManager_get md5_hexdigest cm path now =
     (case cache_dir cm (cache_file_name md5_hexdigest path) of
        None \<Rightarrow> None
      | Some Unreadable \<Rightarrow> None
      | Some (Pickled data) \<Rightarrow>
          (let cache_time = timestamp data; age = now - cache_time
           in if age > real_of_int (max_age cm) then None
              else Some (cached_files data, py_int age,
                         (case folder_sizes data of None \<Rightarrow> Map.empty | Some m \<Rightarrow> m))))"

text \<open>
  \<open>CacheManager.set(path, files, folder_sizes)\<close>, called when \<open>time.time()\<close> is
  \<open>now\<close>; \<open>folder_sizes\<close> is \<open>None\<close> when the argument is left out. The expression
  \<open>folder_sizes or {}\<close> is the empty dictionary for \<open>None\<close>, and the argument
  otherwise (for an empty argument a new empty dictionary, which is the same value).
  The write to the cache file is taken to succeed.
\<close>

definition CacheManager_set ::
  "(string \<Rightarrow> string) \<Rightarrow> cache_manager \<Rightarrow> string \<Rightarrow> file_info list
     \<Rightarrow> (string \<rightharpoonup> int) option \<Rightarrow> real \<Rightarrow> cache_manager" where
  "CacheManager_set md5_hexdigest cm path fls sizes now =
     cm\<lparr>cache_dir := (cache_dir cm)(cache_file_name md5_hexdigest path \<mapsto>
            Pickled \<lparr>timestamp = now, cached_files = fls,
                     folder_sizes = Some (case sizes of None \<Rightarrow> Map.empty | Some m \<Rightarrow> m)\<rparr>)\<rparr>"

section \<open>Properties of the chunk ranges\<close>

lemma length_chunk_ranges: "length (chunk_ranges file_size chunks) = nat chunks"
  by (simp add: chunk_ranges_def)

lemma nth_chunk_ranges:
  "i < nat chunks \<Longrightarrow>
     chunk_ranges file_size chunks ! i =
       (i, chunk_start file_size chunks i, chunk_end file_size chunks i)"
  by (simp add: chunk_ranges_def)

lemma chunk_size_bounds:
  assumes "0 \<le> file_size" and "1 \<le> chunks"
  shows "0 \<le> chunk_size file_size chunks"
    and "chunks * chunk_size file_size chunks \<le> file_size"
proof -
  show "0 \<le> chunk_size file_size chunks"
    using assms by (simp add: chunk_size_def pos_imp_zdiv_nonneg_iff)
  have "chunks * (file_size div chunks) + file_size mod chunks = file_size"
    by simp
  moreover have "0 \<le> file_size mod chunks"
    using assms by simp
  ultimately show "chunks * chunk_size file_size chunks \<le> file_size"
    unfolding chunk_size_def by linarith
qed

lemma chunk_start_le_end:
  assumes "0 \<le> file_size" and "1 \<le> chunks" and "i < nat chunks"
  shows "chunk_start file_size chunks i \<le> chunk_end file_size chunks i"
proof (cases "int i = chunks - 1")
  case True
  have "(chunks - 1) * chunk_size file_size chunks \<le> chunks * chunk_size file_size chunks"
    using chunk_size_bounds(1)[OF assms(1,2)] by (simp add: mult_right_mono)
  also have "\<dots> \<le> file_size"
    by (rule chunk_size_bounds(2)[OF assms(1,2)])
  finally show ?thesis
    using True by (simp add: chunk_start_def chunk_end_def)
next
  case False
  have "int i * chunk_size file_size chunks \<le> (int i + 1) * chunk_size file_size chunks"
    using chunk_size_bounds(1)[OF assms(1,2)] by (simp add: mult_right_mono)
  then show ?thesis
    using False by (simp add: chunk_start_def chunk_end_def)
qed

lemma chunk_end_is_next_start:
  assumes "Suc i < nat chunks"
  shows "chunk_end file_size chunks i = chunk_start file_size chunks (Suc i)"
proof -
  have "int i \<noteq> chunks - 1"
    using assms by linarith
  then show ?thesis
    by (simp add: chunk_start_def chunk_end_def)
qed

lemma chunk_start_mono:
  assumes "0 \<le> file_size" and "1 \<le> chunks" and "i \<le> j"
  shows "chunk_start file_size chunks i \<le> chunk_start file_size chunks j"
  unfolding chunk_start_def
  using chunk_size_bounds(1)[OF assms(1,2)] assms(3) by (simp add: mult_right_mono)

lemma chunk_end_le_later_start:
  assumes "0 \<le> file_size" and "1 \<le> chunks" and "i < j" and "j < nat chunks"
  shows "chunk_end file_size chunks i \<le> chunk_start file_size chunks j"
proof -
  have "chunk_end file_size chunks i = chunk_start file_size chunks (Suc i)"
    using assms(3,4) by (intro chunk_end_is_next_start) simp
  also have "\<dots> \<le> chunk_start file_size chunks j"
    using assms(3) by (intro chunk_start_mono[OF assms(1,2)]) simp
  finally show ?thesis .
qed

lemma chunk_cover_upto:
  assumes "0 \<le> file_size" and "1 \<le> chunks" and "k < nat chunks"
  shows "(\<Union>i\<le>k. {chunk_start file_size chunks i ..< chunk_end file_size chunks i})
           = {0 ..< chunk_end file_size chunks k}"
  using assms(3)
proof (induction k)
  case 0
  then show ?case by (simp add: chunk_start_def)
next
  case (Suc k)
  let ?s = "chunk_start file_size chunks" and ?e = "chunk_end file_size chunks"
  have prev: "(\<Union>i\<le>k. {?s i ..< ?e i}) = {0 ..< ?e k}"
    using Suc by simp
  have link: "?e k = ?s (Suc k)"
    using Suc.prems by (intro chunk_end_is_next_start)
  have lo: "0 \<le> ?s (Suc k)"
    using chunk_start_mono[OF assms(1,2), of 0 "Suc k"] by (simp add: chunk_start_def)
  have hi: "?s (Suc k) \<le> ?e (Suc k)"
    using Suc.prems by (intro chunk_start_le_end[OF assms(1,2)])
  have "(\<Union>i\<le>Suc k. {?s i ..< ?e i}) = (\<Union>i\<le>k. {?s i ..< ?e i}) \<union> {?s (Suc k) ..< ?e (Suc k)}"
    by (simp add: atMost_Suc Un_commute)
  also have "\<dots> = {0 ..< ?s (Suc k)} \<union> {?s (Suc k) ..< ?e (Suc k)}"
    by (simp add: prev link)
  also have "\<dots> = {0 ..< ?e (Suc k)}"
    using lo hi by (simp add: ivl_disj_un_two(3))
  finally show ?case .
qed

lemma chunk_end_last:
  assumes "nat chunks = Suc n"
  shows "chunk_end file_size chunks n = file_size"
proof -
  have "int n = chunks - 1"
    using assms by linarith
  then show ?thesis
    by (simp add: chunk_end_def)
qed

lemma sum_range_len:
  assumes "0 \<le> file_size" and "1 \<le> chunks"
  shows "sum_list (map range_len (chunk_ranges file_size chunks)) = file_size"
proof -
  let ?s = "chunk_start file_size chunks" and ?e = "chunk_end file_size chunks"
  obtain n where n: "nat chunks = Suc n"
    using assms(2) by (cases "nat chunks") auto
  have tel: "(\<Sum>i<Suc k. ?e i - ?s i) = ?e k" if "k < nat chunks" for k
    using that
  proof (induction k)
    case 0
    then show ?case by (simp add: chunk_start_def)
  next
    case (Suc k)
    then have "(\<Sum>i<Suc k. ?e i - ?s i) = ?e k" by simp
    moreover have "?e k = ?s (Suc k)"
      using Suc.prems by (intro chunk_end_is_next_start)
    ultimately show ?case by simp
  qed
  have "sum_list (map range_len (chunk_ranges file_size chunks)) = (\<Sum>i<nat chunks. ?e i - ?s i)"
    by (simp add: chunk_ranges_def range_len_def range_start_def range_end_def
        comp_def sum_list_sum_nth atLeast0LessThan)
  also have "\<dots> = ?e n"
    using tel[of n] n by simp
  finally show ?thesis
    by (simp add: chunk_end_last[OF n])
qed

text \<open>
  C1. For every \<open>file_size \<ge> 0\<close> and \<open>chunks \<ge> 1\<close> the ranges of the parallel path
  number exactly \<open>chunks\<close>, every range is well formed (start not after end), each
  range ends where the next one starts (contiguous), two different ranges share no byte
  (non-overlapping), and together they hold exactly the bytes \<open>[0, file_size)\<close>; below
  the threshold of 10 MiB the plan is the single range \<open>[0, file_size)\<close>, and
  \<open>download_file\<close> then makes one transfer of the whole file to the destination,
  whatever \<open>chunks\<close> is.
\<close>

theorem chunk_plan_partitions_file:
  assumes "0 \<le> file_size" and "1 \<le> chunks"
  shows "length (chunk_ranges file_size chunks) = nat chunks
       \<and> (\<forall>i < nat chunks.
            chunk_ranges file_size chunks ! i =
              (i, int i * (file_size div chunks),
               (if int i = chunks - 1 then file_size else (int i + 1) * (file_size div chunks)))
          \<and> range_start (chunk_ranges file_size chunks ! i)
              \<le> range_end (chunk_ranges file_size chunks ! i))
       \<and> (\<forall>i. Suc i < nat chunks \<longrightarrow>
            range_end (chunk_ranges file_size chunks ! i)
              = range_start (chunk_ranges file_size chunks ! Suc i))
       \<and> (\<forall>i < nat chunks. \<forall>j < nat chunks. i \<noteq> j \<longrightarrow>
            {range_start (chunk_ranges file_size chunks ! i)
               ..< range_end (chunk_ranges file_size chunks ! i)}
            \<inter> {range_start (chunk_ranges file_size chunks ! j)
               ..< range_end (chunk_ranges file_size chunks ! j)} = {})
       \<and> (\<Union>r \<in> set (chunk_ranges file_size chunks). {range_start r ..< range_end r})
            = {0 ..< file_size}
       \<and> sum_list (map range_len (chunk_ranges file_size chunks)) = file_size
       \<and> (file_size < 10 * 1024 * 1024 \<longrightarrow> plan file_size chunks = [(0, 0, file_size)])
       \<and> (file_size < 10 * 1024 * 1024 \<and> connected env \<and> stat_result env = Inr file_size
            \<and> get_result env = Inr data \<longrightarrow>
            download_file env local_path chunks w
              = (True, w\<lparr>files := (files w)(local_path \<mapsto> data)\<rparr>))"
proof -
  let ?s = "chunk_start file_size chunks" and ?e = "chunk_end file_size chunks"
  let ?rs = "chunk_ranges file_size chunks"
  have nth_s: "range_start (?rs ! i) = ?s i" and nth_e: "range_end (?rs ! i) = ?e i"
    if "i < nat chunks" for i
    using that by (simp_all add: nth_chunk_ranges range_start_def range_end_def)
  have c1: "length ?rs = nat chunks"
    by (rule length_chunk_ranges)
  have c2: "\<forall>i < nat chunks.
      ?rs ! i = (i, int i * (file_size div chunks),
                 (if int i = chunks - 1 then file_size else (int i + 1) * (file_size div chunks)))
      \<and> range_start (?rs ! i) \<le> range_end (?rs ! i)"
  proof (intro allI impI conjI)
    fix i assume i: "i < nat chunks"
    show "?rs ! i = (i, int i * (file_size div chunks),
                 (if int i = chunks - 1 then file_size else (int i + 1) * (file_size div chunks)))"
      using i by (simp add: nth_chunk_ranges chunk_start_def chunk_end_def chunk_size_def)
    show "range_start (?rs ! i) \<le> range_end (?rs ! i)"
      using i chunk_start_le_end[OF assms i] by (simp add: nth_s nth_e)
  qed
  have c3: "\<forall>i. Suc i < nat chunks \<longrightarrow> range_end (?rs ! i) = range_start (?rs ! Suc i)"
  proof (intro allI impI)
    fix i assume i: "Suc i < nat chunks"
    then have "i < nat chunks" by simp
    then show "range_end (?rs ! i) = range_start (?rs ! Suc i)"
      using i chunk_end_is_next_start[OF i] by (simp add: nth_s nth_e)
  qed
  have disj: "{?s i ..< ?e i} \<inter> {?s j ..< ?e j} = {}"
    if "i < j" and "j < nat chunks" for i j
    using chunk_end_le_later_start[OF assms that] by auto
  have c4: "\<forall>i < nat chunks. \<forall>j < nat chunks. i \<noteq> j \<longrightarrow>
      {range_start (?rs ! i) ..< range_end (?rs ! i)}
      \<inter> {range_start (?rs ! j) ..< range_end (?rs ! j)} = {}"
  proof (intro allI impI)
    fix i j assume ij: "i < nat chunks" "j < nat chunks" "i \<noteq> j"
    consider "i < j" | "j < i" using ij(3) by linarith
    then show "{range_start (?rs ! i) ..< range_end (?rs ! i)}
      \<inter> {range_start (?rs ! j) ..< range_end (?rs ! j)} = {}"
    proof cases
      case 1
      then show ?thesis using disj[OF 1 ij(2)] ij by (simp add: nth_s nth_e)
    next
      case 2
      then show ?thesis using disj[OF 2 ij(1)] ij by (simp add: nth_s nth_e Int_commute)
    qed
  qed
  obtain n where n: "nat chunks = Suc n"
    using assms(2) by (cases "nat chunks") auto
  have last_end: "?e n = file_size"
    by (rule chunk_end_last[OF n])
  have "(\<Union>r \<in> set ?rs. {range_start r ..< range_end r}) = (\<Union>i<nat chunks. {?s i ..< ?e i})"
    by (auto simp: chunk_ranges_def range_start_def range_end_def)
  also have "\<dots> = (\<Union>i\<le>n. {?s i ..< ?e i})"
    by (simp add: n lessThan_Suc_atMost)
  also have "\<dots> = {0 ..< ?e n}"
    using n by (intro chunk_cover_upto[OF assms]) simp
  finally have c5: "(\<Union>r \<in> set ?rs. {range_start r ..< range_end r}) = {0 ..< file_size}"
    by (simp add: last_end)
  have c6: "sum_list (map range_len ?rs) = file_size"
    by (rule sum_range_len[OF assms])
  have c7: "file_size < 10 * 1024 * 1024 \<longrightarrow> plan file_size chunks = [(0, 0, file_size)]"
    by (simp add: plan_def small_file_threshold_def)
  have c8: "file_size < 10 * 1024 * 1024 \<and> connected env \<and> stat_result env = Inr file_size
            \<and> get_result env = Inr data \<longrightarrow>
            download_file env local_path chunks w
              = (True, w\<lparr>files := (files w)(local_path \<mapsto> data)\<rparr>)"
    by (simp add: download_file_def)
  from c1 c2 c3 c4 c5 c6 c7 c8 show ?thesis
    by blast
qed

theorem chunk_plan_partitions_file_witness:
  "(0::int) \<le> 10 \<and> (1::int) \<le> 3 \<and> chunk_ranges 10 3 = [(0, 0, 3), (1, 3, 6), (2, 6, 10)]
   \<and> (\<Union>r \<in> set (chunk_ranges 10 3). {range_start r ..< range_end r}) = {0 ..< 10}
   \<and> sum_list (map range_len (chunk_ranges 10 3)) = 10
   \<and> plan 10 3 = [(0, 0, 10)]
   \<and> download_file \<lparr>connected = True, stat_result = Inr 10,
                       get_result = Inr [1, 2, 3, 4, 5, 6, 7, 8, 9, 10],
                       sessions = (\<lambda>i. clean_session [])\<rparr> ''f'' 3 empty_world
       = (True, empty_world\<lparr>files := [''f'' \<mapsto> [1, 2, 3, 4, 5, 6, 7, 8, 9, 10]]\<rparr>)"
proof -
  let ?env = "\<lparr>connected = True, stat_result = Inr 10,
               get_result = Inr [1, 2, 3, 4, 5, 6, 7, 8, 9, 10],
               sessions = (\<lambda>i. clean_session [])\<rparr>"
  have h: "(0::int) \<le> 10" "(1::int) \<le> 3"
    by simp_all
  have r: "chunk_ranges 10 3 = [(0, 0, 3), (1, 3, 6), (2, 6, 10)]"
    by code_simp
  have small: "(10::int) < 10 * 1024 * 1024 \<and> connected ?env \<and> stat_result ?env = Inr 10
      \<and> get_result ?env = Inr [1, 2, 3, 4, 5, 6, 7, 8, 9, 10]"
    by simp
  note t = chunk_plan_partitions_file [OF h, of ?env "[1, 2, 3, 4, 5, 6, 7, 8, 9, 10]" "''f''" empty_world]
  have a: "(\<Union>r \<in> set (chunk_ranges 10 3). {range_start r ..< range_end r}) = {0 ..< 10}
      \<and> sum_list (map range_len (chunk_ranges 10 3)) = 10"
    using t by blast
  have p: "plan 10 3 = [(0, 0, 10)]"
    using t small by blast
  have d: "download_file ?env ''f'' 3 empty_world
       = (True, empty_world\<lparr>files := (files empty_world)(''f'' \<mapsto> [1, 2, 3, 4, 5, 6, 7, 8, 9, 10])\<rparr>)"
    using t small by blast
  have "files empty_world = Map.empty"
    by (simp add: empty_world_def)
  with h r a p d show ?thesis
    by simp
qed

text \<open>
  C8, as stated, fails: 25 MiB is 26214400 bytes, a multiple of 4, and the lengths the
  claim lists sum to 25165826.
\<close>

theorem plan_25MiB_counterexample:
  "map range_len (plan 26214400 4) \<noteq> [6291456, 6291456, 6291456, 6291458]"
  by code_simp

text \<open>
  C8, amended. For a file of 26214400 bytes (25 MiB) and 4 chunks the plan has exactly 4
  ranges, each of 6553600 bytes (the division leaves no remainder for the last range to
  absorb), and the lengths sum to the size of the file.
\<close>

theorem plan_25MiB:
  "length (plan (25 * 1024 * 1024) 4) = 4
   \<and> map range_len (plan (25 * 1024 * 1024) 4) = [6553600, 6553600, 6553600, 6553600]
   \<and> sum_list (map range_len (plan (25 * 1024 * 1024) 4)) = 26214400"
  by code_simp

section \<open>Properties of the directory listing\<close>

lemma sorted_desc: "sorted_wrt (\<lambda>a b. mtime b \<le> mtime a) (sort_key (\<lambda>x. - mtime x) xs)"
proof -
  have "sorted (map (\<lambda>x. - mtime x) (sort_key (\<lambda>x. - mtime x) xs))"
    by (rule sorted_sort_key)
  then show ?thesis
    by (simp add: sorted_map sorted_wrt_iff_nth_less)
qed

text \<open>
  C10, as stated, fails: two entries with the same modification time are not in strictly
  descending order.
\<close>

theorem list_directory_ties_counterexample:
  "\<not> sorted_wrt (\<lambda>a b. mtime b < mtime a)
       (fst (list_directory True
          (Inr [\<lparr>filename = ''a'', st_size = 1, st_mtime = 5, st_mode = 0x81A4\<rparr>,
                \<lparr>filename = ''b'', st_size = 2, st_mtime = 5, st_mode = 0x81A4\<rparr>]) []))"
  by (simp add: list_directory_def to_file_info_def)

text \<open>
  C10, amended. The list \<open>list_directory\<close> returns is in descending order of
  modification time, newest first and not strictly: for a listing that was retrieved it
  holds exactly the entries of the listing, whatever their kind, and entries with the same
  modification time keep the order of the listing. Without a connection, and when the
  listing raises, the result is the empty list.
\<close>

theorem list_directory_newest_first:
  "sorted_wrt (\<lambda>a b. mtime b \<le> mtime a) (fst (list_directory has_client listing out))
   \<and> (\<forall>attrs. has_client \<and> listing = Inr attrs \<longrightarrow>
        mset (fst (list_directory has_client listing out)) = mset (map to_file_info attrs)
        \<and> (\<forall>t. filter (\<lambda>x. mtime x = t) (fst (list_directory has_client listing out))
                = filter (\<lambda>x. mtime x = t) (map to_file_info attrs)))
   \<and> (\<not> has_client \<or> (\<exists>e. listing = Inl e) \<longrightarrow> fst (list_directory has_client listing out) = [])"
proof -
  have stab: "filter (\<lambda>x. mtime x = t) (sort_key (\<lambda>x. - mtime x) xs) = filter (\<lambda>x. mtime x = t) xs"
    for t and xs :: "file_info list"
    using sort_key_stable[of "\<lambda>x. - mtime x" "- t" xs] by simp
  show ?thesis
    by (auto simp: list_directory_def sorted_desc stab split: sum.splits)
qed

theorem list_directory_newest_first_witness:
  "map name (fst (list_directory True
          (Inr [\<lparr>filename = ''old'', st_size = 1, st_mtime = 5, st_mode = 0x81A4\<rparr>,
                \<lparr>filename = ''dir'', st_size = 2, st_mtime = 9, st_mode = 0x41ED\<rparr>,
                \<lparr>filename = ''tie'', st_size = 3, st_mtime = 5, st_mode = 0x81A4\<rparr>]) [])) = [''dir'', ''old'', ''tie'']
   \<and> fst (list_directory True (Inl ''No such file'') []) = []
   \<and> fst (list_directory False (Inr []) []) = []"
  using list_directory_newest_first [of True "Inr [\<lparr>filename = ''old'', st_size = 1, st_mtime = 5, st_mode = 0x81A4\<rparr>,
                \<lparr>filename = ''dir'', st_size = 2, st_mtime = 9, st_mode = 0x41ED\<rparr>,
                \<lparr>filename = ''tie'', st_size = 3, st_mtime = 5, st_mode = 0x81A4\<rparr>]" "[]"]
    list_directory_newest_first [of True "Inl ''No such file''" "[]"]
    list_directory_newest_first [of False "Inr []" "[]"]
  by (simp add: list_directory_def to_file_info_def)

section \<open>Properties of the listing cache\<close>

text \<open>
  C6. After \<open>set(path, entries, sizes)\<close> at time \<open>now\<close>, a \<open>get(path)\<close> at a time
  \<open>now'\<close> that is at most \<open>max_age\<close> seconds later returns the entries and the folder
  sizes passed to \<open>set\<close>, with the age in whole seconds; a \<open>get(path)\<close> more than
  \<open>max_age\<close> seconds later returns \<open>None\<close>. This holds for every digest function.
\<close>

theorem cache_set_then_get:
  "(now' - now \<le> real_of_int (max_age cm) \<longrightarrow>
      CacheManager_get md5 (CacheManager_set md5 cm path entries (Some sizes) now) path now'
        = Some (entries, py_int (now' - now), sizes))
   \<and> (now' - now > real_of_int (max_age cm) \<longrightarrow>
      CacheManager_get md5 (CacheManager_set md5 cm path entries (Some sizes) now) path now'
        = None)"
  by (simp add: CacheManager_get_def CacheManager_set_def)

theorem cache_set_then_get_witness:
  "CacheManager_get (\<lambda>p. p) (CacheManager_set (\<lambda>p. p) \<lparr>cache_dir = Map.empty, max_age = 300\<rparr>
       ''/remote/dir'' [\<lparr>name = ''a.bin'', size = 7, mtime = 1700000000, is_dir = False, mode = 0x81A4\<rparr>]
       (Some [''sub'' \<mapsto> 42]) 1000) ''/remote/dir'' 1010
     = Some ([\<lparr>name = ''a.bin'', size = 7, mtime = 1700000000, is_dir = False, mode = 0x81A4\<rparr>],
             10, [''sub'' \<mapsto> 42])
   \<and> CacheManager_get (\<lambda>p. p) (CacheManager_set (\<lambda>p. p) \<lparr>cache_dir = Map.empty, max_age = 300\<rparr>
       ''/remote/dir'' [\<lparr>name = ''a.bin'', size = 7, mtime = 1700000000, is_dir = False, mode = 0x81A4\<rparr>]
       (Some [''sub'' \<mapsto> 42]) 1000) ''/remote/dir'' 1301
     = None"
  using cache_set_then_get [of 1010 1000 "\<lparr>cache_dir = Map.empty, max_age = 300\<rparr>" "\<lambda>p. p"
      "''/remote/dir''" "[\<lparr>name = ''a.bin'', size = 7, mtime = 1700000000, is_dir = False, mode = 0x81A4\<rparr>]"
      "[''sub'' \<mapsto> 42]"]
    cache_set_then_get [of 1301 1000 "\<lparr>cache_dir = Map.empty, max_age = 300\<rparr>" "\<lambda>p. p"
      "''/remote/dir''" "[\<lparr>name = ''a.bin'', size = 7, mtime = 1700000000, is_dir = False, mode = 0x81A4\<rparr>]"
      "[''sub'' \<mapsto> 42]"]
  by (simp add: py_int_def)

section \<open>Properties of the chunk worker\<close>

lemma digit_val_digit_char: "d < 10 \<Longrightarrow> digit_val (digit_char d) = d"
proof -
  assume "d < 10"
  then have "d \<in> {0, 1, 2, 3, 4, 5, 6, 7, 8, 9}"
    by auto
  then show ?thesis
    by (auto simp: digit_val_def digit_char_def)
qed

lemma decimal_value_str_nat: "decimal_value (str_nat n) = n"
proof (induction n rule: str_nat.induct)
  case (1 n)
  show ?case
  proof (cases "n < 10")
    case True
    then show ?thesis
      by (simp add: str_nat.simps[of n] decimal_value_def digit_val_digit_char)
  next
    case False
    then have "decimal_value (str_nat (n div 10)) = n div 10"
      using 1 by simp
    then show ?thesis
      using False by (simp add: str_nat.simps[of n] decimal_value_def digit_val_digit_char)
  qed
qed

lemma str_nat_inj: "str_nat i = str_nat j \<longleftrightarrow> i = j"
  by (metis decimal_value_str_nat)

lemma temp_name_inj: "temp_name local_path i = temp_name local_path j \<longleftrightarrow> i = j"
  by (simp add: temp_name_def str_nat_inj)

lemma temp_name_not_local: "temp_name local_path i \<noteq> local_path"
proof
  assume "temp_name local_path i = local_path"
  then have "length (temp_name local_path i) = length local_path"
    by simp
  then show False
    by (simp add: temp_name_def)
qed

lemma take_length_take: "take (length (take m ys)) ys = take m ys"
  by (cases "m \<le> length ys") (simp_all add: min_def)

lemma read_loop_result:
  assumes "0 \<le> start + bytes_read s"
  shows "case read_loop env start n k s of (raised, s') \<Rightarrow>
          downloaded s' - downloaded s = bytes_read s' - bytes_read s
        \<and> bytes_read s \<le> bytes_read s'
        \<and> int (length (local_file s')) - int (length (local_file s)) = bytes_read s' - bytes_read s
        \<and> local_file s' = local_file s @
             take (nat (bytes_read s' - bytes_read s)) (drop (nat (start + bytes_read s)) (remote_data env))
        \<and> (raised = None \<longrightarrow>
             local_file s' = local_file s @
               take (nat (n - bytes_read s)) (drop (nat (start + bytes_read s)) (remote_data env)))"
  using assms
proof (induction env start n k s rule: read_loop.induct)
  case (1 env start n k s)
  let ?p = "nat (start + bytes_read s)"
  let ?m = "min 65536 (n - bytes_read s)"
  let ?chunk = "remote_read (remote_data env) (start + bytes_read s) ?m"
  show ?case
  proof (cases "bytes_read s < n")
    case False
    then show ?thesis
      by (simp add: read_loop.simps[of env start n k s])
  next
    case lt: True
    show ?thesis
    proof (cases "io_raises env k")
      case (Some e)
      then show ?thesis
        using lt by (simp add: read_loop.simps[of env start n k s])
    next
      case None
      show ?thesis
      proof (cases "?chunk = []")
        case True
        have "0 < nat ?m"
          using lt by simp
        with True have "drop ?p (remote_data env) = []"
          unfolding remote_read_def by (metis take_eq_Nil less_numeral_extra(3))
        then show ?thesis
          using lt None True by (simp add: read_loop.simps[of env start n k s])
      next
        case False
        let ?s1 = "s\<lparr>bytes_read := bytes_read s + int (length ?chunk),
                      local_file := local_file s @ ?chunk,
                      downloaded := downloaded s + int (length ?chunk)\<rparr>"
        obtain raised s' where r: "read_loop env start n (Suc k) ?s1 = (raised, s')"
          by (cases "read_loop env start n (Suc k) ?s1")
        have step: "read_loop env start n k s = (raised, s')"
          using lt None False r by (simp add: read_loop.simps[of env start n k s] Let_def)
        have pos1: "0 \<le> start + bytes_read ?s1"
          using "1.prems" by simp
        have ih: "downloaded s' - downloaded ?s1 = bytes_read s' - bytes_read ?s1
          \<and> bytes_read ?s1 \<le> bytes_read s'
          \<and> int (length (local_file s')) - int (length (local_file ?s1)) = bytes_read s' - bytes_read ?s1
          \<and> local_file s' = local_file ?s1 @
               take (nat (bytes_read s' - bytes_read ?s1)) (drop (nat (start + bytes_read ?s1)) (remote_data env))
          \<and> (raised = None \<longrightarrow>
               local_file s' = local_file ?s1 @
                 take (nat (n - bytes_read ?s1)) (drop (nat (start + bytes_read ?s1)) (remote_data env)))"
          using "1.IH"[OF lt None refl False pos1] unfolding r split_conv .
        let ?l = "length ?chunk"
        have "?l \<le> nat ?m"
          unfolding remote_read_def by simp
        then have len_le: "int ?l \<le> n - bytes_read s"
          using lt by linarith
        have chunk_take: "?chunk = take ?l (drop ?p (remote_data env))"
          unfolding remote_read_def by (simp only: take_length_take)
        have p1: "nat (start + bytes_read ?s1) = ?p + ?l"
          using "1.prems" by (simp add: nat_add_distrib)
        have split: "take (?l + b) (drop ?p (remote_data env))
            = ?chunk @ take b (drop (?p + ?l) (remote_data env))" for b
        proof -
          have "take (?l + b) (drop ?p (remote_data env))
              = take ?l (drop ?p (remote_data env)) @ take b (drop ?l (drop ?p (remote_data env)))"
            by (rule take_add)
          also have "take ?l (drop ?p (remote_data env)) = ?chunk"
            by (rule chunk_take[symmetric])
          also have "drop ?l (drop ?p (remote_data env)) = drop (?p + ?l) (remote_data env)"
            by (simp only: drop_drop add.commute)
          finally show ?thesis .
        qed
        have br1: "bytes_read ?s1 = bytes_read s + int ?l"
          and lf1: "local_file ?s1 = local_file s @ ?chunk"
          and dl1: "downloaded ?s1 = downloaded s + int ?l"
          by simp_all
        have ih1: "downloaded s' - downloaded ?s1 = bytes_read s' - bytes_read ?s1"
          and ih2: "bytes_read ?s1 \<le> bytes_read s'"
          and ih5: "int (length (local_file s')) - int (length (local_file ?s1)) = bytes_read s' - bytes_read ?s1"
          and ih3: "local_file s' = local_file ?s1 @
               take (nat (bytes_read s' - bytes_read ?s1)) (drop (nat (start + bytes_read ?s1)) (remote_data env))"
          and ih4: "raised = None \<longrightarrow>
               local_file s' = local_file ?s1 @
                 take (nat (n - bytes_read ?s1)) (drop (nat (start + bytes_read ?s1)) (remote_data env))"
          using ih by blast+
        have d1: "nat (bytes_read s' - bytes_read s) = ?l + nat (bytes_read s' - bytes_read ?s1)"
          using ih2 unfolding br1 by linarith
        have d2: "nat (n - bytes_read s) = ?l + nat (n - bytes_read ?s1)"
          using len_le unfolding br1 by linarith
        have c1: "downloaded s' - downloaded s = bytes_read s' - bytes_read s"
          using ih1 unfolding br1 dl1 by linarith
        have c2: "bytes_read s \<le> bytes_read s'"
          using ih2 unfolding br1 by linarith
        have c3: "local_file s' = local_file s @
             take (nat (bytes_read s' - bytes_read s)) (drop ?p (remote_data env))"
          unfolding d1 split using ih3 unfolding p1 lf1 by (simp only: append_assoc)
        have c4: "raised = None \<longrightarrow> local_file s' = local_file s @
               take (nat (n - bytes_read s)) (drop ?p (remote_data env))"
          unfolding d2 split using ih4 unfolding p1 lf1 by (simp only: append_assoc)
        have c5: "int (length (local_file s')) - int (length (local_file s)) = bytes_read s' - bytes_read s"
          using ih5 unfolding br1 lf1 by simp
        from c1 c2 c3 c4 c5 show ?thesis
          unfolding step split_conv by blast
      qed
    qed
  qed
qed

lemma read_loop_counter_shift:
  "read_loop env start n k (s\<lparr>downloaded := d\<rparr>) =
     (case read_loop env start n k s of
        (raised, s') \<Rightarrow> (raised, s'\<lparr>downloaded := downloaded s' - downloaded s + d\<rparr>))"
proof (induction env start n k s arbitrary: d rule: read_loop.induct)
  case (1 env start n k s)
  let ?sd = "s\<lparr>downloaded := d\<rparr>"
  let ?chunk = "remote_read (remote_data env) (start + bytes_read s)
                  (min 65536 (n - bytes_read s))"
  show ?case
  proof (cases "bytes_read s < n")
    case False
    then show ?thesis
      by (simp add: read_loop.simps[of env start n k s] read_loop.simps[of env start n k ?sd])
  next
    case lt: True
    show ?thesis
    proof (cases "io_raises env k")
      case (Some e)
      then show ?thesis
        using lt
        by (simp add: read_loop.simps[of env start n k s] read_loop.simps[of env start n k ?sd])
    next
      case None
      show ?thesis
      proof (cases "?chunk = []")
        case True
        then show ?thesis
          using lt None
          by (simp add: read_loop.simps[of env start n k s] read_loop.simps[of env start n k ?sd])
      next
        case False
        let ?l = "int (length ?chunk)"
        let ?s1 = "s\<lparr>bytes_read := bytes_read s + ?l,
                      local_file := local_file s @ ?chunk,
                      downloaded := downloaded s + ?l\<rparr>"
        obtain raised s' where r: "read_loop env start n (Suc k) ?s1 = (raised, s')"
          by (cases "read_loop env start n (Suc k) ?s1")
        have rhs: "read_loop env start n k s = (raised, s')"
          using lt None False r by (simp add: read_loop.simps[of env start n k s] Let_def)
        have "read_loop env start n (Suc k) (?s1\<lparr>downloaded := d + ?l\<rparr>)
               = (raised, s'\<lparr>downloaded := downloaded s' - downloaded ?s1 + (d + ?l)\<rparr>)"
          using "1.IH"[OF lt None refl False, of "d + ?l"] unfolding r split_conv .
        moreover have "read_loop env start n k ?sd
               = read_loop env start n (Suc k) (?s1\<lparr>downloaded := d + ?l\<rparr>)"
          using lt None False by (simp add: read_loop.simps[of env start n k ?sd] Let_def)
        ultimately have "read_loop env start n k ?sd
               = (raised, s'\<lparr>downloaded := downloaded s' - downloaded ?s1 + (d + ?l)\<rparr>)"
          by (rule ssubst[rotated]) 
        then show ?thesis
          unfolding rhs split_conv by simp
      qed
    qed
  qed
qed

lemma read_loop_from:
  "read_loop env start (end - start) 0 \<lparr>bytes_read = 0, local_file = [], downloaded = d\<rparr>
     = (fst (loop_from_start env start end),
        (snd (loop_from_start env start end))
          \<lparr>downloaded := downloaded (snd (loop_from_start env start end)) + d\<rparr>)"
  using read_loop_counter_shift[where env = env and start = start and n = "end - start"
          and k = 0 and s = "\<lparr>bytes_read = 0, local_file = [], downloaded = 0\<rparr>" and d = d]
  by (simp add: loop_from_start_def split: prod.splits)

lemma loop_from_start_counts:
  assumes "0 \<le> start"
  shows "downloaded (snd (loop_from_start env start end)) = int (length (chunk_bytes env start end))"
    and "fst (loop_from_start env start end) = None \<Longrightarrow>
           chunk_bytes env start end = take (nat (end - start)) (drop (nat start) (remote_data env))"
proof -
  let ?init = "\<lparr>bytes_read = 0, local_file = [], downloaded = 0\<rparr>"
  obtain raised s' where r: "read_loop env start (end - start) 0 ?init = (raised, s')"
    by (cases "read_loop env start (end - start) 0 ?init")
  have sel: "bytes_read ?init = 0" "local_file ?init = []" "downloaded ?init = 0"
    by simp_all
  have "0 \<le> start + bytes_read ?init"
    using assms by simp
  then have "case read_loop env start (end - start) 0 ?init of (raised, s') \<Rightarrow>
          downloaded s' - downloaded ?init = bytes_read s' - bytes_read ?init
        \<and> bytes_read ?init \<le> bytes_read s'
        \<and> int (length (local_file s')) - int (length (local_file ?init))
            = bytes_read s' - bytes_read ?init
        \<and> local_file s' = local_file ?init @
             take (nat (bytes_read s' - bytes_read ?init))
               (drop (nat (start + bytes_read ?init)) (remote_data env))
        \<and> (raised = None \<longrightarrow>
             local_file s' = local_file ?init @
               take (nat (end - start - bytes_read ?init))
                 (drop (nat (start + bytes_read ?init)) (remote_data env)))"
    by (rule read_loop_result)
  then have inv: "downloaded s' - 0 = bytes_read s' - 0"
       "int (length (local_file s')) - int (length ([]::byte list)) = bytes_read s' - 0"
       "raised = None \<longrightarrow> local_file s' = [] @
               take (nat (end - start - 0)) (drop (nat (start + 0)) (remote_data env))"
    unfolding r split_conv sel by blast+
  have d: "downloaded s' = int (length (local_file s'))"
    using inv(1,2) by simp
  have t: "raised = None \<longrightarrow> local_file s' = take (nat (end - start)) (drop (nat start) (remote_data env))"
    using inv(3) by simp
  show "downloaded (snd (loop_from_start env start end)) = int (length (chunk_bytes env start end))"
    using d by (simp add: chunk_bytes_def loop_from_start_def r)
  show "fst (loop_from_start env start end) = None \<Longrightarrow>
           chunk_bytes env start end = take (nat (end - start)) (drop (nat start) (remote_data env))"
    using t by (simp add: chunk_bytes_def loop_from_start_def r)
qed

lemma download_chunk_errors:
  "errors (download_chunk envs local_path st (i, start, end))
     = errors st @ error_entry i (chunk_failure (envs i) start end)"
  by (simp add: download_chunk_def transfer_chunk_def record_error_def Let_def read_loop_from
      chunk_failure_def error_entry_def split: option.splits)

lemma download_chunk_files:
  "local_files (download_chunk envs local_path st (i, start, end))
     = (if reaches_loop (envs i)
        then (local_files st)(temp_name local_path i \<mapsto> chunk_bytes (envs i) start end)
        else local_files st)"
  by (simp add: download_chunk_def transfer_chunk_def record_error_def Let_def read_loop_from
      reaches_loop_def chunk_bytes_def split: option.splits)

lemma download_chunk_counter:
  "downloaded_bytes (download_chunk envs local_path st (i, start, end))
     = downloaded_bytes st
       + (if reaches_loop (envs i)
          then downloaded (snd (loop_from_start (envs i) start end)) else 0)"
  by (simp add: download_chunk_def transfer_chunk_def record_error_def Let_def read_loop_from
      reaches_loop_def split: option.splits)

lemma download_chunk_connections:
  "connections (download_chunk envs local_path st (i, start, end))
     = (if key_ok (envs i) \<and> connect_raises (envs i) = None
        then (if chunk_failure (envs i) start end = None
              then removeAll i (connections st @ [i])
              else connections st @ [i])
        else connections st)"
  by (simp add: download_chunk_def transfer_chunk_def record_error_def Let_def read_loop_from
      chunk_failure_def split: option.splits)

lemma chunk_failure_None_reaches: "chunk_failure env start end = None \<Longrightarrow> reaches_loop env"
  by (simp add: chunk_failure_def reaches_loop_def split: if_splits option.splits)

lemma read_loop_no_fault:
  assumes "\<forall>k. io_raises env k = None"
  shows "fst (read_loop env start n k s) = None"
  using assms
proof (induction env start n k s rule: read_loop.induct)
  case (1 env start n k s)
  let ?chunk = "remote_read (remote_data env) (start + bytes_read s)
                  (min 65536 (n - bytes_read s))"
  have none: "io_raises env k = None"
    using "1.prems" by simp
  show ?case
  proof (cases "bytes_read s < n \<and> ?chunk \<noteq> []")
    case True
    then have "fst (read_loop env start n (Suc k)
                 (s\<lparr>bytes_read := bytes_read s + int (length ?chunk),
                    local_file := local_file s @ ?chunk,
                    downloaded := downloaded s + int (length ?chunk)\<rparr>)) = None"
      using "1.IH"[OF _ none refl] "1.prems" by blast
    then show ?thesis
      using True none by (simp add: read_loop.simps[of env start n k s] Let_def)
  next
    case False
    then show ?thesis
      using none by (auto simp: read_loop.simps[of env start n k s] Let_def)
  qed
qed

lemma chunk_failure_no_fault:
  assumes "reaches_loop env" and "\<forall>k. io_raises env k = None"
  shows "chunk_failure env start end = None"
  using assms(1) read_loop_no_fault[OF assms(2)]
  by (simp add: chunk_failure_def reaches_loop_def loop_from_start_def)

lemma clean_session_simps:
  "reaches_loop (clean_session data)"
  "io_raises (clean_session data) k = None"
  "remote_data (clean_session data) = data"
  "key_ok (clean_session data)"
  "connect_raises (clean_session data) = None"
  by (simp_all add: clean_session_def reaches_loop_def)

lemma chunk_failure_clean_session: "chunk_failure (clean_session data) start end = None"
  by (rule chunk_failure_no_fault) (simp_all add: clean_session_simps)

lemma length_zero_bytes: "length (zero_bytes n) = n"
  by (simp add: zero_bytes_def)

section \<open>Properties of the coordinator\<close>

lemma foldl_download_chunk_errors:
  "errors (foldl (download_chunk envs lp) st rs)
     = errors st @ concat (map (\<lambda>(i, s, e). error_entry i (chunk_failure (envs i) s e)) rs)"
proof (induction rs arbitrary: st)
  case Nil
  show ?case by simp
next
  case (Cons r rs)
  obtain i s e where r: "r = (i, s, e)"
    by (cases r)
  show ?case
    by (simp add: Cons.IH r download_chunk_errors)
qed

lemma foldl_download_chunk_counter:
  "downloaded_bytes (foldl (download_chunk envs lp) st rs)
     = downloaded_bytes st
       + sum_list (map (\<lambda>(i, s, e). if reaches_loop (envs i)
                                     then downloaded (snd (loop_from_start (envs i) s e)) else 0) rs)"
proof (induction rs arbitrary: st)
  case Nil
  show ?case by simp
next
  case (Cons r rs)
  obtain i s e where r: "r = (i, s, e)"
    by (cases r)
  show ?case
    by (simp add: Cons.IH r download_chunk_counter)
qed

lemma foldl_download_chunk_other_file:
  assumes "\<forall>i \<in> fst ` set rs. p \<noteq> temp_name lp i"
  shows "local_files (foldl (download_chunk envs lp) st rs) p = local_files st p"
  using assms
proof (induction rs arbitrary: st)
  case Nil
  show ?case by simp
next
  case (Cons r rs)
  obtain i s e where r: "r = (i, s, e)"
    by (cases r)
  have "local_files (foldl (download_chunk envs lp) (download_chunk envs lp st r) rs) p
          = local_files (download_chunk envs lp st r) p"
    using Cons.prems by (intro Cons.IH) simp
  also have "\<dots> = local_files st p"
    using Cons.prems by (simp add: r download_chunk_files)
  finally show ?case by simp
qed

lemma foldl_download_chunk_temp_file:
  assumes "distinct (map fst rs)" and "(i, s, e) \<in> set rs" and "reaches_loop (envs i)"
  shows "local_files (foldl (download_chunk envs lp) st rs) (temp_name lp i)
           = Some (chunk_bytes (envs i) s e)"
  using assms(1,2)
proof (induction rs arbitrary: st)
  case Nil
  then show ?case by simp
next
  case (Cons r rs)
  show ?case
  proof (cases "r = (i, s, e)")
    case True
    have "i \<notin> fst ` set rs"
      using Cons.prems(1) True by simp
    then have "\<forall>j \<in> fst ` set rs. temp_name lp i \<noteq> temp_name lp j"
      by (auto simp: temp_name_inj)
    then have "local_files (foldl (download_chunk envs lp) (download_chunk envs lp st r) rs) (temp_name lp i)
          = local_files (download_chunk envs lp st r) (temp_name lp i)"
      by (rule foldl_download_chunk_other_file)
    also have "\<dots> = Some (chunk_bytes (envs i) s e)"
      using assms(3) by (simp add: True download_chunk_files)
    finally show ?thesis by simp
  next
    case False
    then have "(i, s, e) \<in> set rs"
      using Cons.prems(2) by simp
    moreover have "distinct (map fst rs)"
      using Cons.prems(1) by simp
    ultimately show ?thesis
      using Cons.IH by simp
  qed
qed

text \<open>
  The order in which the workers run does not matter for what \<open>download_file\<close> looks
  at after the join: for every reordering of the ranges the entries of \<open>errors\<close> are the
  same up to their order, and the counter and the local files are the same.
\<close>

lemma foldl_download_chunk_untouched:
  assumes "\<forall>r \<in> set rs. p = temp_name lp (fst r) \<longrightarrow> \<not> reaches_loop (envs (fst r))"
  shows "local_files (foldl (download_chunk envs lp) st rs) p = local_files st p"
  using assms
proof (induction rs arbitrary: st)
  case Nil
  show ?case by simp
next
  case (Cons r rs)
  obtain i s e where r: "r = (i, s, e)"
    by (cases r)
  have "local_files (foldl (download_chunk envs lp) (download_chunk envs lp st r) rs) p
          = local_files (download_chunk envs lp st r) p"
    using Cons.prems by (intro Cons.IH) simp
  also have "\<dots> = local_files st p"
    using Cons.prems by (simp add: r download_chunk_files)
  finally show ?case by simp
qed

lemma workers_order_irrelevant:
  assumes "mset rs' = mset rs" and "distinct (map fst rs)"
  shows "mset (errors (foldl (download_chunk envs lp) st rs'))
           = mset (errors (foldl (download_chunk envs lp) st rs))"
    and "downloaded_bytes (foldl (download_chunk envs lp) st rs')
           = downloaded_bytes (foldl (download_chunk envs lp) st rs)"
    and "local_files (foldl (download_chunk envs lp) st rs')
           = local_files (foldl (download_chunk envs lp) st rs)"
proof -
  let ?f = "\<lambda>(i, s, e). error_entry i (chunk_failure (envs i) s e)"
  let ?g = "\<lambda>(i, s, e). if reaches_loop (envs i)
                          then downloaded (snd (loop_from_start (envs i) s e)) else (0::int)"
  have set_eq: "set rs' = set rs"
    using assms(1) by (rule mset_eq_setD)
  have "mset (map fst rs') = mset (map fst rs)"
    by (simp add: assms(1))
  from mset_eq_imp_distinct_iff[OF this] have dist': "distinct (map fst rs')"
    using assms(2) by simp
  have sum_perm: "sum_list (map h rs') = sum_list (map h rs)"
    for h :: "nat \<times> int \<times> int \<Rightarrow> 'm::comm_monoid_add"
  proof -
    have "sum_list (map h rs') = sum_mset (mset (map h rs'))"
      by (simp only: sum_mset_sum_list)
    also have "\<dots> = sum_mset (mset (map h rs))"
      by (simp add: assms(1))
    also have "\<dots> = sum_list (map h rs)"
      by (simp only: sum_mset_sum_list)
    finally show ?thesis .
  qed
  have "mset (concat (map ?f rs')) = mset (concat (map ?f rs))"
    using sum_perm[of "\<lambda>r. mset (?f r)"] by (simp add: mset_concat comp_def)
  then show "mset (errors (foldl (download_chunk envs lp) st rs'))
           = mset (errors (foldl (download_chunk envs lp) st rs))"
    by (simp add: foldl_download_chunk_errors)
  have "sum_list (map ?g rs') = sum_list (map ?g rs)"
    by (rule sum_perm)
  then show "downloaded_bytes (foldl (download_chunk envs lp) st rs')
           = downloaded_bytes (foldl (download_chunk envs lp) st rs)"
    by (simp add: foldl_download_chunk_counter)
  show "local_files (foldl (download_chunk envs lp) st rs')
           = local_files (foldl (download_chunk envs lp) st rs)"
  proof (rule ext)
    fix p
    show "local_files (foldl (download_chunk envs lp) st rs') p
           = local_files (foldl (download_chunk envs lp) st rs) p"
    proof (cases "\<exists>r \<in> set rs. p = temp_name lp (fst r) \<and> reaches_loop (envs (fst r))")
      case True
      then obtain i s e where m: "(i, s, e) \<in> set rs" and p: "p = temp_name lp i"
        and reach: "reaches_loop (envs i)"
        by auto
      have m': "(i, s, e) \<in> set rs'"
        using m set_eq by simp
      show ?thesis
        unfolding p
        using foldl_download_chunk_temp_file[where envs = envs, OF assms(2) m reach]
          foldl_download_chunk_temp_file[where envs = envs, OF dist' m' reach]
        by simp
    next
      case False
      then have a: "\<forall>r \<in> set rs. p = temp_name lp (fst r) \<longrightarrow> \<not> reaches_loop (envs (fst r))"
        by blast
      then have a': "\<forall>r \<in> set rs'. p = temp_name lp (fst r) \<longrightarrow> \<not> reaches_loop (envs (fst r))"
        using set_eq by simp
      show ?thesis
        by (simp add: foldl_download_chunk_untouched[OF a] foldl_download_chunk_untouched[OF a'])
    qed
  qed
qed

lemma reassemble_all_present:
  assumes "distinct is" and "\<forall>i \<in> set is. fs (temp_name lp i) = Some (b i)"
  shows "reassemble lp is out fs
           = (None, out @ concat (map b is),
              (\<lambda>p. if p \<in> temp_name lp ` set is then None else fs p))"
  using assms
proof (induction "is" arbitrary: out fs)
  case Nil
  show ?case by simp
next
  case (Cons i rest)
  let ?fs = "fs(temp_name lp i := None)"
  have here: "fs (temp_name lp i) = Some (b i)"
    using Cons.prems(2) by simp
  have "\<forall>j \<in> set rest. ?fs (temp_name lp j) = Some (b j)"
    using Cons.prems by (auto simp: temp_name_inj)
  moreover have "distinct rest"
    using Cons.prems(1) by simp
  ultimately have "reassemble lp rest (out @ b i) ?fs
      = (None, (out @ b i) @ concat (map b rest),
         (\<lambda>p. if p \<in> temp_name lp ` set rest then None else ?fs p))"
    by (rule Cons.IH[rotated])
  moreover have "(\<lambda>p. if p \<in> temp_name lp ` set rest then None else ?fs p)
      = (\<lambda>p. if p \<in> temp_name lp ` set (i # rest) then None else fs p)"
    by (rule ext) auto
  ultimately show ?case
    by (simp add: here)
qed

lemma chunk_start_nonneg:
  assumes "0 \<le> file_size" and "i < nat chunks"
  shows "0 \<le> chunk_start file_size chunks i"
proof -
  have "1 \<le> chunks"
    using assms(2) by linarith
  then have "0 \<le> chunk_size file_size chunks"
    using assms(1) by (intro chunk_size_bounds(1))
  then show ?thesis
    by (simp add: chunk_start_def)
qed

lemma joined_errors:
  "errors (workers_joined envs lp file_size chunks fs)
     = concat (map (\<lambda>i. error_entry i (worker_failure envs file_size chunks i)) [0..<nat chunks])"
  by (simp add: workers_joined_def foldl_download_chunk_errors chunk_ranges_def comp_def
      worker_failure_def)

lemma joined_errors_empty_iff:
  "errors (workers_joined envs lp file_size chunks fs) = []
     \<longleftrightarrow> (\<forall>i < nat chunks. worker_failure envs file_size chunks i = None)"
  by (auto simp: joined_errors error_entry_def split: option.splits)

lemma joined_error_member:
  assumes "i < nat chunks" and "worker_failure envs file_size chunks i = Some e"
  shows "chunk_error i e \<in> set (errors (workers_joined envs lp file_size chunks fs))"
proof -
  have "chunk_error i e \<in> set (error_entry i (worker_failure envs file_size chunks i))"
    by (simp add: assms(2) error_entry_def)
  moreover have "i \<in> set [0..<nat chunks]"
    using assms(1) by simp
  ultimately show ?thesis
    unfolding joined_errors set_concat set_map by blast
qed

lemma joined_local_path:
  "local_files (workers_joined envs lp file_size chunks fs) lp = fs lp"
proof -
  have "\<forall>i \<in> fst ` set (chunk_ranges file_size chunks). lp \<noteq> temp_name lp i"
    using temp_name_not_local[of lp] by metis
  then show ?thesis
    unfolding workers_joined_def by (simp add: foldl_download_chunk_other_file)
qed

lemma joined_temp_file:
  assumes "i < nat chunks" and "reaches_loop (envs i)"
  shows "local_files (workers_joined envs lp file_size chunks fs) (temp_name lp i)
           = Some (worker_bytes envs file_size chunks i)"
proof -
  have "map fst (chunk_ranges file_size chunks) = [0..<nat chunks]"
    by (simp add: chunk_ranges_def comp_def)
  then have d: "distinct (map fst (chunk_ranges file_size chunks))"
    by simp
  have m: "(i, chunk_start file_size chunks i, chunk_end file_size chunks i)
             \<in> set (chunk_ranges file_size chunks)"
    using assms(1) by (simp add: chunk_ranges_def)
  show ?thesis
    unfolding workers_joined_def worker_bytes_def
    using d m assms(2) by (rule foldl_download_chunk_temp_file[where envs = envs])
qed

lemma joined_counter:
  assumes "0 \<le> file_size" and "\<forall>i < nat chunks. reaches_loop (envs i)"
  shows "downloaded_bytes (workers_joined envs lp file_size chunks fs)
           = int (length (concat (map (worker_bytes envs file_size chunks) [0..<nat chunks])))"
proof -
  have each: "(if reaches_loop (envs i)
         then downloaded (snd (loop_from_start (envs i) (chunk_start file_size chunks i)
                                 (chunk_end file_size chunks i))) else 0)
        = int (length (worker_bytes envs file_size chunks i))"
    if "i \<in> set [0..<nat chunks]" for i
  proof -
    have i: "i < nat chunks"
      using that by simp
    have "0 \<le> chunk_start file_size chunks i"
      by (rule chunk_start_nonneg[OF assms(1) i])
    then show ?thesis
      using assms(2) i by (simp add: loop_from_start_counts(1) worker_bytes_def)
  qed
  have "downloaded_bytes (workers_joined envs lp file_size chunks fs)
      = sum_list (map (\<lambda>i. if reaches_loop (envs i)
         then downloaded (snd (loop_from_start (envs i) (chunk_start file_size chunks i)
                                 (chunk_end file_size chunks i))) else 0) [0..<nat chunks])"
    by (simp add: workers_joined_def foldl_download_chunk_counter chunk_ranges_def comp_def)
  also have "\<dots> = sum_list (map (\<lambda>i. int (length (worker_bytes envs file_size chunks i))) [0..<nat chunks])"
    using each by (intro arg_cong[where f = sum_list] map_cong refl)
  also have "\<dots> = int (length (concat (map (worker_bytes envs file_size chunks) [0..<nat chunks])))"
  proof -
    have "sum_list (map (\<lambda>i. int (length (worker_bytes envs file_size chunks i))) xs)
        = int (length (concat (map (worker_bytes envs file_size chunks) xs)))" for xs
      by (induction xs) simp_all
    then show ?thesis .
  qed
  finally show ?thesis .
qed

lemma worker_bytes_clean:
  assumes "0 \<le> file_size" and "i < nat chunks"
    and "worker_failure envs file_size chunks i = None"
  shows "worker_bytes envs file_size chunks i
           = take (nat (chunk_end file_size chunks i - chunk_start file_size chunks i))
               (drop (nat (chunk_start file_size chunks i)) (remote_data (envs i)))"
proof -
  have s: "0 \<le> chunk_start file_size chunks i"
    by (rule chunk_start_nonneg[OF assms(1,2)])
  have "fst (loop_from_start (envs i) (chunk_start file_size chunks i)
               (chunk_end file_size chunks i)) = None"
    using assms(3)
    by (simp add: worker_failure_def chunk_failure_def split: if_splits option.splits)
  then show ?thesis
    unfolding worker_bytes_def by (rule loop_from_start_counts(2)[OF s])
qed

lemma download_file_some_worker_failed:
  assumes "connected env" and "stat_result env = Inr file_size"
    and "\<not> file_size < 10 * 1024 * 1024" and "chunks \<noteq> 0"
    and "\<not> (\<forall>i < nat chunks. worker_failure (sessions env) file_size chunks i = None)"
  shows "download_file env lp chunks w =
           (False, w\<lparr>files := local_files (workers_joined (sessions env) lp file_size chunks (files w)),
                     open_connections := open_connections w
                        @ connections (workers_joined (sessions env) lp file_size chunks (files w)),
                     console := console w
                        @ map red (errors (workers_joined (sessions env) lp file_size chunks (files w)))\<rparr>)"
proof -
  have "errors (workers_joined (sessions env) lp file_size chunks (files w)) \<noteq> []"
    using assms(5) by (simp only: joined_errors_empty_iff not_False_eq_True)
  then show ?thesis
    using assms(1-4) by (simp add: download_file_def Let_def)
qed

lemma download_file_all_workers_clean:
  assumes "connected env" and "stat_result env = Inr file_size"
    and "\<not> file_size < 10 * 1024 * 1024" and "chunks \<noteq> 0"
    and "\<forall>i < nat chunks. worker_failure (sessions env) file_size chunks i = None"
  shows "download_file env lp chunks w =
           (True, w\<lparr>files :=
                       (\<lambda>p. if p \<in> temp_name lp ` set [0..<nat chunks] then None
                             else ((local_files (workers_joined (sessions env) lp file_size chunks (files w)))
                                    (lp \<mapsto> [])) p)
                       (lp \<mapsto> concat (map (worker_bytes (sessions env) file_size chunks) [0..<nat chunks])),
                     open_connections := open_connections w
                        @ connections (workers_joined (sessions env) lp file_size chunks (files w))\<rparr>)"
proof -
  let ?st = "workers_joined (sessions env) lp file_size chunks (files w)"
  let ?fs = "(local_files ?st)(lp \<mapsto> [])"
  have e: "errors ?st = []"
    using assms(5) by (simp only: joined_errors_empty_iff)
  have present: "\<forall>i \<in> set [0..<nat chunks].
      ?fs (temp_name lp i) = Some (worker_bytes (sessions env) file_size chunks i)"
  proof
    fix i assume "i \<in> set [0..<nat chunks]"
    then have i: "i < nat chunks" by simp
    then have "reaches_loop (sessions env i)"
      using assms(5) by (auto simp: worker_failure_def intro: chunk_failure_None_reaches)
    then have "local_files ?st (temp_name lp i) = Some (worker_bytes (sessions env) file_size chunks i)"
      by (rule joined_temp_file[OF i])
    then show "?fs (temp_name lp i) = Some (worker_bytes (sessions env) file_size chunks i)"
      by (simp add: temp_name_not_local)
  qed
  have r: "reassemble lp [0..<nat chunks] [] ?fs
      = (None, [] @ concat (map (worker_bytes (sessions env) file_size chunks) [0..<nat chunks]),
         (\<lambda>p. if p \<in> temp_name lp ` set [0..<nat chunks] then None else ?fs p))"
    by (rule reassemble_all_present[OF _ present]) simp
  show ?thesis
    using assms(1-4) e by (simp add: download_file_def Let_def r)
qed

lemma chunk_end_le_file_size:
  assumes "0 \<le> file_size" and "1 \<le> chunks" and "i < nat chunks"
  shows "chunk_end file_size chunks i \<le> file_size"
proof (cases "Suc i < nat chunks")
  case True
  obtain n where n: "nat chunks = Suc n"
    using assms(3) by (cases "nat chunks") auto
  have "chunk_end file_size chunks i \<le> chunk_start file_size chunks n"
    using True n by (intro chunk_end_le_later_start[OF assms(1,2)]) simp_all
  also have "\<dots> \<le> chunk_end file_size chunks n"
    using n by (intro chunk_start_le_end[OF assms(1,2)]) simp
  also have "\<dots> = file_size"
    by (rule chunk_end_last[OF n])
  finally show ?thesis .
next
  case False
  then have "nat chunks = Suc i"
    using assms(3) by simp
  then show ?thesis
    by (simp add: chunk_end_last)
qed

lemma int_length_concat:
  "int (length (concat (map f xs))) = sum_list (map (\<lambda>i. int (length (f i))) xs)"
  by (induction xs) simp_all

lemma planned_bytes_full_length:
  assumes "0 \<le> file_size" and "1 \<le> chunks"
    and "\<forall>i < nat chunks. chunk_end file_size chunks i \<le> int (length (remote_data (envs i)))"
  shows "int (length (concat (map (planned_bytes envs file_size chunks) [0..<nat chunks])))
           = file_size"
proof -
  have each: "int (length (planned_bytes envs file_size chunks i))
        = chunk_end file_size chunks i - chunk_start file_size chunks i"
    if "i \<in> set [0..<nat chunks]" for i
  proof -
    have i: "i < nat chunks"
      using that by simp
    have s: "0 \<le> chunk_start file_size chunks i"
      by (rule chunk_start_nonneg[OF assms(1) i])
    have se: "chunk_start file_size chunks i \<le> chunk_end file_size chunks i"
      by (rule chunk_start_le_end[OF assms(1,2) i])
    have e: "chunk_end file_size chunks i \<le> int (length (remote_data (envs i)))"
      using assms(3) i by simp
    have "nat (chunk_end file_size chunks i - chunk_start file_size chunks i)
            \<le> length (remote_data (envs i)) - nat (chunk_start file_size chunks i)"
      using s se e by linarith
    then have "length (planned_bytes envs file_size chunks i)
        = nat (chunk_end file_size chunks i - chunk_start file_size chunks i)"
      by (simp add: planned_bytes_def)
    then show ?thesis
      using se by simp
  qed
  have "int (length (concat (map (planned_bytes envs file_size chunks) [0..<nat chunks])))
      = sum_list (map (\<lambda>i. int (length (planned_bytes envs file_size chunks i))) [0..<nat chunks])"
    by (rule int_length_concat)
  also have "\<dots> = sum_list (map (\<lambda>i. chunk_end file_size chunks i - chunk_start file_size chunks i)
                               [0..<nat chunks])"
    using each by (intro arg_cong[where f = sum_list] map_cong refl)
  also have "\<dots> = sum_list (map range_len (chunk_ranges file_size chunks))"
    by (simp add: chunk_ranges_def range_len_def range_start_def range_end_def comp_def)
  also have "\<dots> = file_size"
    by (rule sum_range_len[OF assms(1,2)])
  finally show ?thesis .
qed

lemma download_file_success_iff:
  assumes "connected env" and "stat_result env = Inr file_size"
    and "\<not> file_size < 10 * 1024 * 1024"
  shows "fst (download_file env lp chunks w) = True
     \<longleftrightarrow> chunks \<noteq> 0 \<and> (\<forall>i < nat chunks. worker_failure (sessions env) file_size chunks i = None)"
proof (cases "chunks = 0")
  case True
  then show ?thesis
    using assms by (simp add: download_file_def)
next
  case nz: False
  show ?thesis
  proof (cases "\<forall>i < nat chunks. worker_failure (sessions env) file_size chunks i = None")
    case True
    then show ?thesis
      using nz by (simp add: download_file_all_workers_clean[OF assms nz True])
  next
    case False
    then show ?thesis
      using nz by (simp add: download_file_some_worker_failed[OF assms nz False])
  qed
qed

lemma workers_clean_bytes:
  assumes "0 \<le> file_size"
    and "\<forall>i < nat chunks. worker_failure envs file_size chunks i = None"
  shows "map (worker_bytes envs file_size chunks) [0..<nat chunks]
           = map (planned_bytes envs file_size chunks) [0..<nat chunks]"
  using assms by (intro map_cong refl) (simp add: worker_bytes_clean planned_bytes_def)

lemma download_file_success_files:
  assumes "connected env" and "stat_result env = Inr file_size"
    and "10 * 1024 * 1024 \<le> file_size"
    and "fst (download_file env lp chunks w) = True"
  shows "files (snd (download_file env lp chunks w)) lp
           = Some (concat (map (planned_bytes (sessions env) file_size chunks) [0..<nat chunks]))"
    and "downloaded_bytes (workers_joined (sessions env) lp file_size chunks (files w))
           = int (length (concat (map (planned_bytes (sessions env) file_size chunks)
                                    [0..<nat chunks])))"
proof -
  have big: "\<not> file_size < 10 * 1024 * 1024" and nonneg: "0 \<le> file_size"
    using assms(3) by simp_all
  have nz: "chunks \<noteq> 0"
    and clean: "\<forall>i < nat chunks. worker_failure (sessions env) file_size chunks i = None"
    using assms(4) download_file_success_iff[OF assms(1,2) big, of lp chunks w] by simp_all
  have b: "map (worker_bytes (sessions env) file_size chunks) [0..<nat chunks]
           = map (planned_bytes (sessions env) file_size chunks) [0..<nat chunks]"
    by (rule workers_clean_bytes[OF nonneg clean])
  show "files (snd (download_file env lp chunks w)) lp
           = Some (concat (map (planned_bytes (sessions env) file_size chunks) [0..<nat chunks]))"
    by (simp add: download_file_all_workers_clean[OF assms(1,2) big nz clean] b)
  have "\<forall>i < nat chunks. reaches_loop (sessions env i)"
    using clean by (auto simp: worker_failure_def intro: chunk_failure_None_reaches)
  then show "downloaded_bytes (workers_joined (sessions env) lp file_size chunks (files w))
           = int (length (concat (map (planned_bytes (sessions env) file_size chunks)
                                    [0..<nat chunks])))"
    by (simp add: joined_counter[OF nonneg] b)
qed

section \<open>The claims about the transfer\<close>

text \<open>
  C2. In every transfer on the parallel path in which a worker \<open>i\<close> records an error
  \<open>e\<close>, \<open>download_file\<close> returns \<open>False\<close>; the entry of worker \<open>i\<close>, which names
  its index, is in \<open>errors\<close> and every entry of \<open>errors\<close> is printed on the console;
  the destination path holds what it held before (reassembly is not reached); and the
  temporary of every worker that recorded no error is still there, holding the bytes of
  that worker's range.
\<close>

theorem failed_worker_fails_transfer:
  assumes "connected env" and "stat_result env = Inr file_size"
    and "10 * 1024 * 1024 \<le> file_size"
    and "i < nat chunks"
    and "worker_failure (sessions env) file_size chunks i = Some e"
  shows "fst (download_file env local_path chunks w) = False
       \<and> chunk_error i e
            \<in> set (errors (workers_joined (sessions env) local_path file_size chunks (files w)))
       \<and> console (snd (download_file env local_path chunks w))
            = console w
              @ map red (errors (workers_joined (sessions env) local_path file_size chunks (files w)))
       \<and> red (chunk_error i e) \<in> set (console (snd (download_file env local_path chunks w)))
       \<and> files (snd (download_file env local_path chunks w)) local_path = files w local_path
       \<and> (\<forall>j < nat chunks. worker_failure (sessions env) file_size chunks j = None \<longrightarrow>
            files (snd (download_file env local_path chunks w)) (temp_name local_path j)
              = Some (take (nat (chunk_end file_size chunks j - chunk_start file_size chunks j))
                        (drop (nat (chunk_start file_size chunks j))
                           (remote_data (sessions env j)))))"
proof -
  let ?st = "workers_joined (sessions env) local_path file_size chunks (files w)"
  have big: "\<not> file_size < 10 * 1024 * 1024" and nonneg: "0 \<le> file_size"
    using assms(3) by simp_all
  have nz: "chunks \<noteq> 0"
    using assms(4) by auto
  have some: "\<not> (\<forall>i < nat chunks. worker_failure (sessions env) file_size chunks i = None)"
    using assms(4,5) by auto
  have res: "download_file env local_path chunks w =
           (False, w\<lparr>files := local_files ?st,
                     open_connections := open_connections w @ connections ?st,
                     console := console w @ map red (errors ?st)\<rparr>)"
    by (rule download_file_some_worker_failed[OF assms(1,2) big nz some])
  have mem: "chunk_error i e \<in> set (errors ?st)"
    by (rule joined_error_member[OF assms(4,5)])
  have temps: "\<forall>j < nat chunks. worker_failure (sessions env) file_size chunks j = None \<longrightarrow>
            local_files ?st (temp_name local_path j)
              = Some (take (nat (chunk_end file_size chunks j - chunk_start file_size chunks j))
                        (drop (nat (chunk_start file_size chunks j))
                           (remote_data (sessions env j))))"
  proof (intro allI impI)
    fix j assume j: "j < nat chunks"
      and clean: "worker_failure (sessions env) file_size chunks j = None"
    have "reaches_loop (sessions env j)"
      using clean unfolding worker_failure_def by (rule chunk_failure_None_reaches)
    then have "local_files ?st (temp_name local_path j)
        = Some (worker_bytes (sessions env) file_size chunks j)"
      by (rule joined_temp_file[OF j])
    then show "local_files ?st (temp_name local_path j)
              = Some (take (nat (chunk_end file_size chunks j - chunk_start file_size chunks j))
                        (drop (nat (chunk_start file_size chunks j))
                           (remote_data (sessions env j))))"
      by (simp only: worker_bytes_clean[OF nonneg j clean])
  qed
  show ?thesis
    using mem temps by (simp add: res joined_local_path)
qed

theorem failed_worker_fails_transfer_witness:
  "fst (download_file \<lparr>connected = True, stat_result = Inr 10485760, get_result = Inr [],
                        sessions = one_failing\<rparr> ''f'' 4 empty_world) = False
   \<and> ''[red]Chunk 1: ConnectionFailed[/red]''
        \<in> set (console (snd (download_file \<lparr>connected = True, stat_result = Inr 10485760,
                        get_result = Inr [], sessions = one_failing\<rparr> ''f'' 4 empty_world)))
   \<and> files (snd (download_file \<lparr>connected = True, stat_result = Inr 10485760,
                        get_result = Inr [], sessions = one_failing\<rparr> ''f'' 4 empty_world)) ''f'' = None
   \<and> map_option length (files (snd (download_file \<lparr>connected = True, stat_result = Inr 10485760,
                        get_result = Inr [], sessions = one_failing\<rparr> ''f'' 4 empty_world)) ''f.part0'')
        = Some 2621440"
proof -
  let ?env = "\<lparr>connected = True, stat_result = Inr 10485760, get_result = Inr [],
               sessions = one_failing\<rparr>"
  have h1: "connected ?env" and h2: "stat_result ?env = Inr 10485760"
    and h3: "10 * 1024 * 1024 \<le> (10485760::int)" and h4: "1 < nat 4"
    by simp_all
  have h5: "worker_failure (sessions ?env) 10485760 4 1 = Some ''ConnectionFailed''"
    by (simp add: worker_failure_def chunk_failure_def one_failing_def clean_session_def)
  have c0: "worker_failure (sessions ?env) 10485760 4 0 = None"
    by (simp add: worker_failure_def one_failing_def chunk_failure_clean_session)
  have s0: "chunk_start 10485760 4 0 = 0" and e0: "chunk_end 10485760 4 0 = 2621440"
    by (simp_all add: chunk_start_def chunk_end_def chunk_size_def)
  have t0: "temp_name ''f'' 0 = ''f.part0''" and er: "red (chunk_error 1 ''ConnectionFailed'') = ''[red]Chunk 1: ConnectionFailed[/red]''"
    by (simp_all add: temp_name_def chunk_error_def red_def str_nat.simps digit_char_def)
  note t = failed_worker_fails_transfer[OF h1 h2 h3 h4 h5, of "''f''" empty_world]
  have a: "fst (download_file ?env ''f'' 4 empty_world) = False"
    using t by blast
  have b: "red (chunk_error 1 ''ConnectionFailed'') \<in> set (console (snd (download_file ?env ''f'' 4 empty_world)))"
    using t by blast
  have c: "files (snd (download_file ?env ''f'' 4 empty_world)) ''f'' = files empty_world ''f''"
    using t by blast
  have "files (snd (download_file ?env ''f'' 4 empty_world)) (temp_name ''f'' 0)
          = Some (take (nat (chunk_end 10485760 4 0 - chunk_start 10485760 4 0))
                        (drop (nat (chunk_start 10485760 4 0)) (remote_data (sessions ?env 0))))"
    using t c0 by simp
  then have d: "map_option length (files (snd (download_file ?env ''f'' 4 empty_world)) ''f.part0'')
        = Some 2621440"
    by (simp add: s0 e0 t0 one_failing_def clean_session_simps length_zero_bytes)
  have b': "''[red]Chunk 1: ConnectionFailed[/red]''
      \<in> set (console (snd (download_file ?env ''f'' 4 empty_world)))"
    using b unfolding er .
  have c': "files (snd (download_file ?env ''f'' 4 empty_world)) ''f'' = None"
    using c by (simp add: empty_world_def)
  show ?thesis
    using a b' c' d by blast
qed







text \<open>
  C5, as stated, fails: in the transfer of the counterexample to C3 \<open>download_file\<close>
  returns \<open>True\<close> and the shared counter ends at 3, not at 10485760.
\<close>

theorem progress_counter_counterexample:
  "fst (download_file \<lparr>connected = True, stat_result = Inr 10485760, get_result = Inr [],
                        sessions = (\<lambda>i. clean_session [1, 2, 3])\<rparr> ''f'' 2 empty_world) = True
   \<and> downloaded_bytes (workers_joined (\<lambda>i. clean_session [1, 2, 3]) ''f'' 10485760 2
                          (files empty_world)) = 3"
proof -
  let ?env = "\<lparr>connected = True, stat_result = Inr 10485760, get_result = Inr [],
               sessions = (\<lambda>i. clean_session [1, 2, 3])\<rparr>"
  have h1: "connected ?env" and h2: "stat_result ?env = Inr 10485760"
    and h3: "\<not> (10485760::int) < 10 * 1024 * 1024" and h3': "10 * 1024 * 1024 \<le> (10485760::int)"
    by simp_all
  have ok: "fst (download_file ?env ''f'' 2 empty_world) = True"
    using download_file_success_iff[OF h1 h2 h3, of "''f''" 2 empty_world]
    by (simp add: worker_failure_def chunk_failure_clean_session)
  have "concat (map (planned_bytes (sessions ?env) 10485760 2) [0..<nat 2]) = [1, 2, 3]"
    by (simp add: planned_bytes_def chunk_start_def chunk_end_def chunk_size_def
        clean_session_simps upt_conv_Cons)
  then have "downloaded_bytes (workers_joined (sessions ?env) ''f'' 10485760 2 (files empty_world)) = 3"
    using download_file_success_files(2)[OF h1 h2 h3' ok] by simp
  with ok show ?thesis
    by simp
qed

text \<open>
  C5, amended. When \<open>download_file\<close> returns \<open>True\<close> on the parallel path, the final
  value of the shared counter is the number of bytes of the destination file; with
  \<open>chunks \<ge> 1\<close> it is \<open>file_size\<close> when every session serves its range to the end.
\<close>

theorem progress_counter_counts_written_bytes:
  assumes "connected env" and "stat_result env = Inr file_size"
    and "10 * 1024 * 1024 \<le> file_size"
    and "fst (download_file env local_path chunks w) = True"
  shows "map_option (\<lambda>out. int (length out))
           (files (snd (download_file env local_path chunks w)) local_path)
         = Some (downloaded_bytes
                   (workers_joined (sessions env) local_path file_size chunks (files w)))
       \<and> (1 \<le> chunks
           \<and> (\<forall>i < nat chunks.
                 chunk_end file_size chunks i \<le> int (length (remote_data (sessions env i))))
           \<longrightarrow> downloaded_bytes
                 (workers_joined (sessions env) local_path file_size chunks (files w))
               = file_size)"
proof -
  have nonneg: "0 \<le> file_size"
    using assms(3) by simp
  note f = download_file_success_files[OF assms]
  have "downloaded_bytes (workers_joined (sessions env) local_path file_size chunks (files w))
          = file_size"
    if "1 \<le> chunks"
      and "\<forall>i < nat chunks.
            chunk_end file_size chunks i \<le> int (length (remote_data (sessions env i)))"
    using planned_bytes_full_length[OF nonneg that] by (simp add: f(2))
  then show ?thesis
    using f by simp
qed

theorem progress_counter_counts_written_bytes_witness:
  "fst (download_file \<lparr>connected = True, stat_result = Inr 10485760, get_result = Inr [],
                        sessions = (\<lambda>i. clean_session (zero_bytes 10485760))\<rparr>
          ''f'' 4 empty_world) = True
   \<and> downloaded_bytes (workers_joined (\<lambda>i. clean_session (zero_bytes 10485760)) ''f''
                          10485760 4 (files empty_world)) = 10485760"
proof -
  let ?env = "\<lparr>connected = True, stat_result = Inr 10485760, get_result = Inr [],
               sessions = (\<lambda>i. clean_session (zero_bytes 10485760))\<rparr>"
  have h1: "connected ?env" and h2: "stat_result ?env = Inr 10485760"
    and h3: "\<not> (10485760::int) < 10 * 1024 * 1024" and h3': "10 * 1024 * 1024 \<le> (10485760::int)"
    by simp_all
  have ok: "fst (download_file ?env ''f'' 4 empty_world) = True"
    using download_file_success_iff[OF h1 h2 h3, of "''f''" 4 empty_world]
    by (simp add: worker_failure_def chunk_failure_clean_session)
  have full: "(1::int) \<le> 4 \<and> (\<forall>i < nat 4.
      chunk_end 10485760 4 i \<le> int (length (remote_data (sessions ?env i))))"
    using chunk_end_le_file_size[of 10485760 4]
    by (simp add: clean_session_simps length_zero_bytes)
  have "downloaded_bytes (workers_joined (sessions ?env) ''f'' 10485760 4 (files empty_world))
          = 10485760"
    using progress_counter_counts_written_bytes[OF h1 h2 h3' ok] full by blast
  with ok show ?thesis
    by simp
qed

text \<open>
  C7, as stated, fails: with \<open>chunks = -1\<close> nothing fails; \<open>range(chunks)\<close> is empty,
  no worker runs, the destination is created empty and \<open>download_file\<close> returns
  \<open>True\<close>.
\<close>

theorem negative_degree_counterexample:
  "fst (download_file \<lparr>connected = True, stat_result = Inr 10485760, get_result = Inr [],
                        sessions = (\<lambda>i. clean_session [])\<rparr> ''f'' (- 1) empty_world) = True
   \<and> files (snd (download_file \<lparr>connected = True, stat_result = Inr 10485760,
                        get_result = Inr [], sessions = (\<lambda>i. clean_session [])\<rparr>
                   ''f'' (- 1) empty_world)) ''f'' = Some []"
  by (simp add: download_file_def workers_joined_def chunk_ranges_def empty_world_def)

text \<open>
  C7, amended. With \<open>chunks = 0\<close> and a file of at least 10 MiB, \<open>download_file\<close>
  fails before any worker is started: the division raises, the handler of
  \<open>download_file\<close> prints the failure and \<open>False\<close> is returned, with the local files
  untouched. Below 10 MiB \<open>chunks\<close> is not used: the result is the same for every value.
\<close>

theorem zero_degree_fails:
  assumes "connected env" and "stat_result env = Inr file_size"
  shows "(10 * 1024 * 1024 \<le> file_size \<longrightarrow>
            download_file env local_path 0 w
              = (False, w\<lparr>console := console w @ [download_failed zero_division]\<rparr>))
       \<and> (file_size < 10 * 1024 * 1024 \<longrightarrow>
            download_file env local_path chunks w = download_file env local_path 8 w)"
  using assms by (simp add: download_file_def)

theorem zero_degree_fails_witness:
  "download_file \<lparr>connected = True, stat_result = Inr 10485760, get_result = Inr [],
                   sessions = (\<lambda>i. clean_session [])\<rparr> ''f'' 0 empty_world
     = (False, empty_world\<lparr>console := [download_failed zero_division]\<rparr>)
   \<and> download_file \<lparr>connected = True, stat_result = Inr 5, get_result = Inr [1, 2, 3, 4, 5],
                   sessions = (\<lambda>i. clean_session [])\<rparr> ''f'' 0 empty_world
     = download_file \<lparr>connected = True, stat_result = Inr 5, get_result = Inr [1, 2, 3, 4, 5],
                   sessions = (\<lambda>i. clean_session [])\<rparr> ''f'' 8 empty_world"
proof -
  let ?big = "\<lparr>connected = True, stat_result = Inr 10485760, get_result = Inr [],
               sessions = (\<lambda>i. clean_session [])\<rparr>"
  let ?small = "\<lparr>connected = True, stat_result = Inr 5, get_result = Inr [1, 2, 3, 4, 5],
               sessions = (\<lambda>i. clean_session [])\<rparr>"
  have b: "connected ?big" "stat_result ?big = Inr 10485760"
    and s: "connected ?small" "stat_result ?small = Inr 5"
    by simp_all
  show ?thesis
    using zero_degree_fails[OF b, of "''f''" empty_world]
      zero_degree_fails[OF s, of "''f''" empty_world 0]
    by (simp add: empty_world_def)
qed

text \<open>
  C9 at a failing input: a worker whose connection is established and whose first read of
  the remote file raises records the error and leaves its connection open (the list of
  open connections holds its index), where a worker in which nothing raises closes it.
\<close>

theorem connection_left_open_after_exception:
  "errors (download_chunk
            (\<lambda>i. (clean_session [1, 2, 3])
                    \<lparr>io_raises := (\<lambda>k. if k = 0 then Some ''Connection reset'' else None)\<rparr>)
            ''f'' empty_shared (0, 0, 5242880)) = [''Chunk 0: Connection reset'']
   \<and> connections (download_chunk
            (\<lambda>i. (clean_session [1, 2, 3])
                    \<lparr>io_raises := (\<lambda>k. if k = 0 then Some ''Connection reset'' else None)\<rparr>)
            ''f'' empty_shared (0, 0, 5242880)) = [0]
   \<and> connections (download_chunk (\<lambda>i. clean_session [1, 2, 3])
            ''f'' empty_shared (0, 0, 5242880)) = []"
proof -
  let ?env = "(clean_session [1, 2, 3])
                \<lparr>io_raises := (\<lambda>k. if k = 0 then Some ''Connection reset'' else None)\<rparr>"
  have "fst (loop_from_start ?env 0 5242880) = Some ''Connection reset''"
    by (simp add: loop_from_start_def read_loop.simps)
  then have f: "chunk_failure ?env 0 5242880 = Some ''Connection reset''"
    by (simp add: chunk_failure_def clean_session_def)
  have e: "chunk_error 0 ''Connection reset'' = ''Chunk 0: Connection reset''"
    by (simp add: chunk_error_def str_nat.simps digit_char_def)
  show ?thesis
    by (simp add: download_chunk_errors download_chunk_connections f e error_entry_def
        chunk_failure_clean_session clean_session_simps empty_shared_def)
qed

end
